theory Spec2Isabelle
  imports Complex_Main "HOL-Library.Word"
begin

unbundle bit_operations_syntax

section \<open>Wire protocol (protocol.h)\<close>

text \<open>
  The fixed-width integers of the protocol are machine words. A C \<open>float\<close> that lives in
  the server's game state is modelled by the real number it stands for (rounding is not
  modelled); a \<open>float\<close> that sits in a wire structure is its 32-bit pattern. Record
  fields carry a short prefix of their structure (\<open>h_\<close> for MessageHeader, \<open>sp_\<close> for
  ServerPlayer, ...), since the structures of the source share field names.
\<close>

type_synonym u8 = "8 word"
type_synonym u16 = "16 word"
type_synonym u32 = "32 word"

definition MSG_NONE :: u8 where "MSG_NONE = 0"
definition MSG_CONNECT :: u8 where "MSG_CONNECT = 1"
definition MSG_CONNECT_ACK :: u8 where "MSG_CONNECT_ACK = 2"
definition MSG_DISCONNECT :: u8 where "MSG_DISCONNECT = 3"
definition MSG_PLAYER_INPUT :: u8 where "MSG_PLAYER_INPUT = 4"
definition MSG_GAME_STATE :: u8 where "MSG_GAME_STATE = 5"
definition MSG_PING :: u8 where "MSG_PING = 6"
definition MSG_PONG :: u8 where "MSG_PONG = 7"

definition INPUT_UP :: u8 where "INPUT_UP = push_bit 0 1"
definition INPUT_LEFT :: u8 where "INPUT_LEFT = push_bit 1 1"
definition INPUT_DOWN :: u8 where "INPUT_DOWN = push_bit 2 1"
definition INPUT_RIGHT :: u8 where "INPUT_RIGHT = push_bit 3 1"
definition INPUT_FIRE :: u8 where "INPUT_FIRE = push_bit 4 1"

definition WEAPON_TYPE_SPREAD :: u8 where "WEAPON_TYPE_SPREAD = 0"
definition WEAPON_TYPE_RAPID :: u8 where "WEAPON_TYPE_RAPID = 1"
definition WEAPON_TYPE_LASER :: u8 where "WEAPON_TYPE_LASER = 2"

definition MAX_SYNC_BULLETS :: int where "MAX_SYNC_BULLETS = 50"
definition PROTOCOL_VERSION :: u8 where "PROTOCOL_VERSION = 1"

definition PLAYER_SPEED :: real where "PLAYER_SPEED = 300"
definition PLAYER_ACCELERATION :: real where "PLAYER_ACCELERATION = 800"
definition PLAYER_FRICTION :: real where "PLAYER_FRICTION = 95 / 100"
definition GAME_WIDTH :: real where "GAME_WIDTH = 800"
definition GAME_HEIGHT :: real where "GAME_HEIGHT = 600"

record MessageHeader =
  h_type :: u8
  h_length :: u16

record PlayerInputMsg =
  in_player_id :: u8
  in_input_flags :: u8
  in_weapon_type :: u8
  in_sequence :: u32

record PlayerState =
  ps_player_id :: u8
  ps_x :: u32
  ps_y :: u32
  ps_vx :: u32
  ps_vy :: u32
  ps_health :: u16
  ps_weapon :: u8
  ps_flags :: u8

record BulletState =
  bs_owner_id :: u8
  bs_x :: u32
  bs_y :: u32
  bs_vx :: u32
  bs_vy :: u32
  bs_weapon_type :: u8

text \<open>The fixed part of GameStateMsg; the flexible array \<open>players[]\<close> follows it in the buffer.\<close>

record GameStateMsg =
  gm_tick :: u32
  gm_your_sequence :: u32
  gm_player_count :: u8
  gm_bullet_count :: u8

record ConnectMsg =
  cm_version :: u8
  cm_name :: "u8 list"

record ConnectAckMsg =
  ca_success :: u8
  ca_player_id :: u8
  ca_reason :: u8

record PingMsg =
  pi_timestamp :: u32

record PongMsg =
  po_client_timestamp :: u32
  po_server_timestamp :: u32

text \<open>\<open>sizeof\<close> of the packed structures: the sum of the field sizes.\<close>

definition sizeof_MessageHeader :: int where "sizeof_MessageHeader = 1 + 2"
definition sizeof_PlayerInputMsg :: int where "sizeof_PlayerInputMsg = 1 + 1 + 1 + 4"
definition sizeof_PlayerState :: int where "sizeof_PlayerState = 1 + 4 + 4 + 4 + 4 + 2 + 1 + 1"
definition sizeof_BulletState :: int where "sizeof_BulletState = 1 + 4 + 4 + 4 + 4 + 1"
definition sizeof_GameStateMsg :: int where "sizeof_GameStateMsg = 4 + 4 + 1 + 1"
definition sizeof_ConnectMsg :: int where "sizeof_ConnectMsg = 1 + 16"
definition sizeof_ConnectAckMsg :: int where "sizeof_ConnectAckMsg = 1 + 1 + 1"
definition sizeof_PingMsg :: int where "sizeof_PingMsg = 4"
definition sizeof_PongMsg :: int where "sizeof_PongMsg = 4 + 4"

section \<open>Object representation: what \<open>send(socket, &msg, sizeof(msg))\<close> puts on the wire\<close>

text \<open>
  Every message is sent as the bytes of a packed structure, with no conversion
  (\<open>htons\<close>/\<open>htonl\<close> are applied to the port of the socket address only). The bytes of a
  multi-byte field are therefore those of the sending host, whose byte order is a
  parameter of the model.
\<close>

datatype byte_order = LittleEndian | BigEndian

definition le16 :: "u16 \<Rightarrow> u8 list" where
  "le16 w = [ucast w, ucast (drop_bit 8 w)]"

definition le32 :: "u32 \<Rightarrow> u8 list" where
  "le32 w = [ucast w, ucast (drop_bit 8 w), ucast (drop_bit 16 w), ucast (drop_bit 24 w)]"

definition store16 :: "byte_order \<Rightarrow> u16 \<Rightarrow> u8 list" where
  "store16 e w = (case e of LittleEndian \<Rightarrow> le16 w | BigEndian \<Rightarrow> rev (le16 w))"

definition store32 :: "byte_order \<Rightarrow> u32 \<Rightarrow> u8 list" where
  "store32 e w = (case e of LittleEndian \<Rightarrow> le32 w | BigEndian \<Rightarrow> rev (le32 w))"

text \<open>Reading a field back from memory on a host of byte order \<open>e\<close>.\<close>

definition of_le16 :: "u8 list \<Rightarrow> u16" where
  "of_le16 bs = ucast (bs ! 0) OR push_bit 8 (ucast (bs ! 1))"

definition of_le32 :: "u8 list \<Rightarrow> u32" where
  "of_le32 bs = ucast (bs ! 0) OR push_bit 8 (ucast (bs ! 1))
     OR push_bit 16 (ucast (bs ! 2)) OR push_bit 24 (ucast (bs ! 3))"

definition load16 :: "byte_order \<Rightarrow> u8 list \<Rightarrow> u16" where
  "load16 e bs = (case e of LittleEndian \<Rightarrow> of_le16 bs | BigEndian \<Rightarrow> of_le16 (rev bs))"

definition load32 :: "byte_order \<Rightarrow> u8 list \<Rightarrow> u32" where
  "load32 e bs = (case e of LittleEndian \<Rightarrow> of_le32 bs | BigEndian \<Rightarrow> of_le32 (rev bs))"

definition MessageHeader_bytes :: "byte_order \<Rightarrow> MessageHeader \<Rightarrow> u8 list" where
  "MessageHeader_bytes e h = [h_type h] @ store16 e (h_length h)"

definition PlayerInputMsg_bytes :: "byte_order \<Rightarrow> PlayerInputMsg \<Rightarrow> u8 list" where
  "PlayerInputMsg_bytes e m =
     [in_player_id m, in_input_flags m, in_weapon_type m] @ store32 e (in_sequence m)"

definition PlayerState_bytes :: "byte_order \<Rightarrow> PlayerState \<Rightarrow> u8 list" where
  "PlayerState_bytes e p =
     [ps_player_id p] @ store32 e (ps_x p) @ store32 e (ps_y p) @ store32 e (ps_vx p)
       @ store32 e (ps_vy p) @ store16 e (ps_health p) @ [ps_weapon p, ps_flags p]"

definition BulletState_bytes :: "byte_order \<Rightarrow> BulletState \<Rightarrow> u8 list" where
  "BulletState_bytes e b =
     [bs_owner_id b] @ store32 e (bs_x b) @ store32 e (bs_y b) @ store32 e (bs_vx b)
       @ store32 e (bs_vy b) @ [bs_weapon_type b]"

definition GameStateMsg_bytes :: "byte_order \<Rightarrow> GameStateMsg \<Rightarrow> u8 list" where
  "GameStateMsg_bytes e g =
     store32 e (gm_tick g) @ store32 e (gm_your_sequence g)
       @ [gm_player_count g, gm_bullet_count g]"

definition ConnectMsg_bytes :: "ConnectMsg \<Rightarrow> u8 list" where
  "ConnectMsg_bytes m = [cm_version m] @ take 16 (cm_name m @ replicate 16 0)"

definition ConnectAckMsg_bytes :: "ConnectAckMsg \<Rightarrow> u8 list" where
  "ConnectAckMsg_bytes a = [ca_success a, ca_player_id a, ca_reason a]"

definition PongMsg_bytes :: "byte_order \<Rightarrow> PongMsg \<Rightarrow> u8 list" where
  "PongMsg_bytes e p = store32 e (po_client_timestamp p) @ store32 e (po_server_timestamp p)"

text \<open>A structure received into memory, read field by field on a host of byte order \<open>e\<close>.\<close>

definition MessageHeader_of_bytes :: "byte_order \<Rightarrow> u8 list \<Rightarrow> MessageHeader" where
  "MessageHeader_of_bytes e bs = \<lparr>h_type = bs ! 0, h_length = load16 e (take 2 (drop 1 bs))\<rparr>"

definition PlayerInputMsg_of_bytes :: "byte_order \<Rightarrow> u8 list \<Rightarrow> PlayerInputMsg" where
  "PlayerInputMsg_of_bytes e bs =
     \<lparr>in_player_id = bs ! 0, in_input_flags = bs ! 1, in_weapon_type = bs ! 2,
      in_sequence = load32 e (take 4 (drop 3 bs))\<rparr>"

section \<open>Sockets (network.h, network.c)\<close>

type_synonym Socket = int

definition INVALID_SOCKET :: Socket where "INVALID_SOCKET = - 1"

datatype errno = EINTR | EAGAIN | EWOULDBLOCK | ECONNRESET | EPIPE

text \<open>What the server and the client do to their sockets, in order.\<close>

datatype event = Send Socket "u8 list" | Close Socket

definition net_close :: "Socket \<Rightarrow> event list" where
  "net_close socket = (if socket \<noteq> INVALID_SOCKET then [Close socket] else [])"

text \<open>
  One call of \<open>send()\<close>: it returns a count (\<open>Sent k\<close>), or \<open>-1\<close> with an error number.
  The transport answers the \<open>n\<close>-th call of a \<open>net_send_all\<close>, asked for \<open>r\<close> bytes, with
  \<open>tr n r\<close>. The loop of \<open>net_send_all\<close> may run forever (an interrupted call is
  repeated without bound), so it is a partial function: \<open>None\<close> is "does not return".
  The result is the returned count and the bytes that went out.
\<close>

datatype send_result = Sent nat | Failed errno

type_synonym transport = "nat \<Rightarrow> int \<Rightarrow> send_result"

partial_function (option) net_send_loop ::
  "transport \<Rightarrow> u8 list \<Rightarrow> int \<Rightarrow> nat \<Rightarrow> int \<Rightarrow> u8 list \<Rightarrow> (int \<times> u8 list) option" where
  "net_send_loop tr data len calls total_sent wire =
     (if total_sent < len then
        (case tr calls (len - total_sent) of
           Failed er \<Rightarrow>
             if er = EINTR then net_send_loop tr data len (Suc calls) total_sent wire
             else Some (- 1, wire)
         | Sent bytes_sent \<Rightarrow>
             if bytes_sent = 0 then Some (total_sent, wire)
             else net_send_loop tr data len (Suc calls) (total_sent + int bytes_sent)
                    (wire @ take bytes_sent (drop (nat total_sent) data)))
      else Some (total_sent, wire))"

definition net_send_all :: "transport \<Rightarrow> u8 list \<Rightarrow> int \<Rightarrow> (int \<times> u8 list) option" where
  "net_send_all tr data len = net_send_loop tr data len 0 0 []"

text \<open>Two transports: one that takes at most 3 bytes a call, one that is always interrupted.\<close>

definition three_byte_transport :: transport where
  "three_byte_transport n r = Sent (min 3 (nat r))"

definition interrupted_transport :: transport where
  "interrupted_transport n r = Failed EINTR"

section \<open>The game server (server.c)\<close>

definition SERVER_PORT :: int where "SERVER_PORT = 8080"
definition TICK_RATE :: real where "TICK_RATE = 60"
definition MAX_PLAYERS :: nat where "MAX_PLAYERS = 4"
definition MAX_SERVER_BULLETS :: nat where "MAX_SERVER_BULLETS = 200"
definition BULLET_LIFETIME :: real where "BULLET_LIFETIME = 2"
definition SPREAD_FIRE_RATE :: real where "SPREAD_FIRE_RATE = 3"
definition RAPID_FIRE_RATE :: real where "RAPID_FIRE_RATE = 10"
definition LASER_FIRE_RATE :: real where "LASER_FIRE_RATE = 15 / 10"
definition SPREAD_BULLET_SPEED :: real where "SPREAD_BULLET_SPEED = 400"
definition RAPID_BULLET_SPEED :: real where "RAPID_BULLET_SPEED = 600"
definition LASER_BULLET_SPEED :: real where "LASER_BULLET_SPEED = 800"

text \<open>A socket address: port and IPv4 address.\<close>

type_synonym sockaddr_in = "u16 \<times> u32"

record ServerPlayer =
  sp_active :: int
  sp_socket :: Socket
  sp_name :: "u8 list"
  sp_addr :: sockaddr_in
  sp_x :: real
  sp_y :: real
  sp_vx :: real
  sp_vy :: real
  sp_health :: int
  sp_weapon :: u8
  sp_input_flags :: u8
  sp_last_sequence :: u32
  sp_fire_cooldown :: real

record ServerBullet =
  sb_active :: int
  sb_owner_id :: u8
  sb_x :: real
  sb_y :: real
  sb_vx :: real
  sb_vy :: real
  sb_weapon_type :: u8
  sb_lifetime :: real

record GameServer =
  sv_listen_socket :: Socket
  sv_players :: "ServerPlayer list"
  sv_player_count :: int
  sv_tick :: u32
  sv_bullets :: "ServerBullet list"
  sv_bullet_count :: int

text \<open>A player slot after \<open>memset(player, 0, sizeof(ServerPlayer))\<close>.\<close>

definition zeroed_player :: ServerPlayer where
  "zeroed_player =
     \<lparr>sp_active = 0, sp_socket = 0, sp_name = replicate 16 0, sp_addr = (0, 0),
      sp_x = 0, sp_y = 0, sp_vx = 0, sp_vy = 0, sp_health = 0, sp_weapon = 0,
      sp_input_flags = 0, sp_last_sequence = 0, sp_fire_cooldown = 0\<rparr>"

text \<open>
  \<open>server_init\<close> writes the player table, the player count, the tick and the listening
  socket of the \<open>GameServer\<close> that \<open>main\<close> declares without an initialiser. Its first
  argument is what that storage held before the call; \<open>created\<close> is what
  \<open>net_create_server\<close> returned. The bullet table and the bullet count are not written.
\<close>

definition server_init :: "GameServer \<Rightarrow> Socket \<Rightarrow> int \<times> GameServer" where
  "server_init server created =
     (let server1 = server\<lparr>sv_players := replicate MAX_PLAYERS zeroed_player,
                            sv_player_count := 0, sv_tick := 0,
                            sv_listen_socket := created\<rparr>
      in if created = INVALID_SOCKET then (- 1, server1) else (0, server1))"

fun first_free_player :: "ServerPlayer list \<Rightarrow> nat list \<Rightarrow> int" where
  "first_free_player ps [] = - 1"
| "first_free_player ps (i # rest) =
     (if sp_active (ps ! i) = 0 then int i else first_free_player ps rest)"

definition server_find_free_slot :: "GameServer \<Rightarrow> int" where
  "server_find_free_slot server = first_free_player (sv_players server) [0..<MAX_PLAYERS]"

text \<open>
  What one call of \<open>server_accept_new_client\<close> meets: the socket \<open>net_accept_client\<close>
  returns with the peer's address, and what the two \<open>net_recv_all\<close> calls return and
  leave in the header and in the connect message.
\<close>

record accept_io =
  acc_socket :: Socket
  acc_addr :: sockaddr_in
  acc_hdr_ret :: int
  acc_hdr :: MessageHeader
  acc_msg_ret :: int
  acc_msg :: ConnectMsg

text \<open>\<open>strncpy(dst, src, n)\<close>: the bytes of the source up to its first NUL or to \<open>n\<close>
  bytes, padded with NUL to \<open>n\<close> bytes; and \<open>snprintf\<close> of \<open>"Player%d"\<close> for a one-digit
  number into the zeroed 16-byte name.\<close>

definition c_strncpy :: "nat \<Rightarrow> u8 list \<Rightarrow> u8 list" where
  "c_strncpy n src =
     (let s = takeWhile (\<lambda>c. c \<noteq> 0) (take n src) in s @ replicate (n - length s) 0)"

definition default_name :: "int \<Rightarrow> u8 list" where
  "default_name k = [0x50, 0x6C, 0x61, 0x79, 0x65, 0x72, 0x30 + word_of_int k] @ replicate 9 0"

text \<open>The two refusals of \<open>server_accept_new_client\<close> (version mismatch, reason 1;
  server full, reason 0) run the same statements: a \<open>MSG_CONNECT_ACK\<close> header, the
  acknowledgement with success 0 and player id 0, then \<open>net_close\<close>.\<close>

definition reject :: "byte_order \<Rightarrow> Socket \<Rightarrow> u8 \<Rightarrow> event list" where
  "reject e client_socket why =
     (let ack = \<lparr>ca_success = 0, ca_player_id = 0, ca_reason = why\<rparr>;
          header = \<lparr>h_type = MSG_CONNECT_ACK, h_length = word_of_int sizeof_ConnectAckMsg\<rparr>
      in [Send client_socket (MessageHeader_bytes e header),
          Send client_socket (ConnectAckMsg_bytes ack)] @ net_close client_socket)"

definition server_accept_new_client ::
  "byte_order \<Rightarrow> accept_io \<Rightarrow> GameServer \<Rightarrow> GameServer \<times> event list" where
  "server_accept_new_client e io server =
     (let client_socket = acc_socket io in
      if client_socket = INVALID_SOCKET then (server, [])
      else if acc_hdr_ret io \<noteq> sizeof_MessageHeader then (server, net_close client_socket)
      else if h_type (acc_hdr io) \<noteq> MSG_CONNECT then (server, net_close client_socket)
      else if acc_msg_ret io \<noteq> sizeof_ConnectMsg then (server, net_close client_socket)
      else if cm_version (acc_msg io) \<noteq> PROTOCOL_VERSION then
        (server, reject e client_socket 1)
      else
        (let slot = server_find_free_slot server in
         if slot < 0 then (server, reject e client_socket 0)
         else
           (let player = zeroed_player
                  \<lparr>sp_active := 1, sp_socket := client_socket, sp_addr := acc_addr io,
                   sp_name := (if cm_name (acc_msg io) ! 0 \<noteq> 0
                               then c_strncpy 15 (cm_name (acc_msg io)) @ [0]
                               else default_name (slot + 1)),
                   sp_x := 100 + real_of_int slot * 150, sp_y := 400,
                   sp_health := 100, sp_weapon := 0\<rparr>;
                ack = \<lparr>ca_success = 1, ca_player_id = word_of_int slot, ca_reason = 0\<rparr>;
                header = \<lparr>h_type = MSG_CONNECT_ACK,
                          h_length = word_of_int sizeof_ConnectAckMsg\<rparr>
            in (server\<lparr>sv_players := (sv_players server)[nat slot := player],
                       sv_player_count := sv_player_count server + 1\<rparr>,
                [Send client_socket (MessageHeader_bytes e header),
                 Send client_socket (ConnectAckMsg_bytes ack)]))))"

text \<open>
  What one call of \<open>server_handle_client_message\<close> meets on the player's socket: the
  return value of \<open>recv\<close> for the header with \<open>errno\<close> and the header left in memory,
  and, for the payload, the return value of \<open>net_recv_all\<close> with the structure left in
  memory (read as a \<open>PlayerInputMsg\<close> or as a \<open>PingMsg\<close>, by the message type).
\<close>

record client_io =
  io_recv_ret :: int
  io_errno :: errno
  io_header :: MessageHeader
  io_payload_ret :: int
  io_input :: PlayerInputMsg
  io_ping :: PingMsg

definition disconnect_player :: "GameServer \<Rightarrow> nat \<Rightarrow> GameServer \<times> event list" where
  "disconnect_player server player_id =
     (let player = sv_players server ! player_id in
      (server\<lparr>sv_players := (sv_players server)[player_id := player\<lparr>sp_active := 0\<rparr>],
              sv_player_count := sv_player_count server - 1\<rparr>,
       net_close (sp_socket player)))"

definition server_handle_client_message ::
  "byte_order \<Rightarrow> client_io \<Rightarrow> GameServer \<Rightarrow> nat \<Rightarrow> GameServer \<times> event list" where
  "server_handle_client_message e io server player_id =
     (let player = sv_players server ! player_id in
      if sp_active player = 0 then (server, [])
      else if io_recv_ret io = 0 then disconnect_player server player_id
      else if io_recv_ret io < 0 then
        (if io_errno io = EAGAIN \<or> io_errno io = EWOULDBLOCK then (server, [])
         else disconnect_player server player_id)
      else if io_recv_ret io \<noteq> sizeof_MessageHeader then (server, [])
      else if h_type (io_header io) = MSG_PLAYER_INPUT then
        (let input = io_input io in
         if io_payload_ret io \<le> 0 then (server, [])
         else if in_sequence input \<le> sp_last_sequence player then (server, [])
         else
           (server\<lparr>sv_players := (sv_players server)
                      [player_id := player\<lparr>sp_last_sequence := in_sequence input,
                                             sp_input_flags := in_input_flags input,
                                             sp_weapon := in_weapon_type input\<rparr>]\<rparr>,
            []))
      else if h_type (io_header io) = MSG_DISCONNECT then disconnect_player server player_id
      else if h_type (io_header io) = MSG_PING then
        (if io_payload_ret io > 0 then
           (let pong = \<lparr>po_client_timestamp = pi_timestamp (io_ping io),
                        po_server_timestamp = sv_tick server\<rparr>;
                pong_header = \<lparr>h_type = MSG_PONG, h_length = word_of_int sizeof_PongMsg\<rparr>
            in (server, [Send (sp_socket player) (MessageHeader_bytes e pong_header),
                         Send (sp_socket player) (PongMsg_bytes e pong)]))
         else (server, []))
      else (server, []))"

fun first_free_bullet :: "ServerBullet list \<Rightarrow> nat list \<Rightarrow> int" where
  "first_free_bullet bs [] = - 1"
| "first_free_bullet bs (i # rest) =
     (if sb_active (bs ! i) = 0 then int i else first_free_bullet bs rest)"

definition server_find_free_bullet :: "GameServer \<Rightarrow> int" where
  "server_find_free_bullet server =
     first_free_bullet (sv_bullets server) [0..<MAX_SERVER_BULLETS]"

definition server_spawn_single_bullet ::
  "GameServer \<Rightarrow> nat \<Rightarrow> real \<Rightarrow> real \<Rightarrow> real \<Rightarrow> real \<Rightarrow> u8 \<Rightarrow> GameServer" where
  "server_spawn_single_bullet server player_id x y vx vy weapon_type =
     (let slot = server_find_free_bullet server in
      if slot < 0 then server
      else server\<lparr>sv_bullets := (sv_bullets server)
                     [nat slot := \<lparr>sb_active = 1, sb_owner_id = word_of_nat player_id,
                                   sb_x = x, sb_y = y, sb_vx = vx, sb_vy = vy,
                                   sb_weapon_type = weapon_type,
                                   sb_lifetime = BULLET_LIFETIME\<rparr>],
                   sv_bullet_count := sv_bullet_count server + 1\<rparr>)"

definition spread_angles :: "real list" where
  "spread_angles = [- (2618 / 10000), 0, 2618 / 10000]"

definition server_spawn_bullet :: "GameServer \<Rightarrow> nat \<Rightarrow> real \<Rightarrow> real \<Rightarrow> GameServer" where
  "server_spawn_bullet server player_id x y =
     (let weapon = sp_weapon (sv_players server ! player_id) in
      if weapon = WEAPON_TYPE_SPREAD then
        fold (\<lambda>angle s. server_spawn_single_bullet s player_id
                (x + 10 * sin angle) (y - 20)
                (SPREAD_BULLET_SPEED * sin angle) (- SPREAD_BULLET_SPEED * cos angle) weapon)
          spread_angles server
      else if weapon = WEAPON_TYPE_RAPID then
        server_spawn_single_bullet server player_id x (y - 25) 0 (- RAPID_BULLET_SPEED) weapon
      else if weapon = WEAPON_TYPE_LASER then
        server_spawn_single_bullet server player_id x (y - 30) 0 (- LASER_BULLET_SPEED) weapon
      else
        server_spawn_single_bullet server player_id x (y - 20) 0 (- SPREAD_BULLET_SPEED) weapon)"

text \<open>The body of the loop of \<open>server_update_bullets\<close>, for the bullet slot \<open>i\<close>.\<close>

definition update_bullet :: "real \<Rightarrow> nat \<Rightarrow> GameServer \<Rightarrow> GameServer" where
  "update_bullet dt i server =
     (let bullet = sv_bullets server ! i in
      if sb_active bullet = 0 then server
      else
        (let moved = bullet\<lparr>sb_x := sb_x bullet + sb_vx bullet * dt,
                            sb_y := sb_y bullet + sb_vy bullet * dt,
                            sb_lifetime := sb_lifetime bullet - dt\<rparr>
         in if sb_lifetime moved \<le> 0 \<or> sb_x moved < 0 \<or> sb_x moved > GAME_WIDTH
               \<or> sb_y moved < 0 \<or> sb_y moved > GAME_HEIGHT
            then server\<lparr>sv_bullets := (sv_bullets server)[i := moved\<lparr>sb_active := 0\<rparr>],
                        sv_bullet_count := sv_bullet_count server - 1\<rparr>
            else server\<lparr>sv_bullets := (sv_bullets server)[i := moved]\<rparr>))"

definition server_update_bullets :: "GameServer \<Rightarrow> real \<Rightarrow> GameServer" where
  "server_update_bullets server dt = fold (update_bullet dt) [0..<MAX_SERVER_BULLETS] server"

definition get_weapon_cooldown :: "u8 \<Rightarrow> real" where
  "get_weapon_cooldown weapon_type =
     (if weapon_type = WEAPON_TYPE_SPREAD then 1 / SPREAD_FIRE_RATE
      else if weapon_type = WEAPON_TYPE_RAPID then 1 / RAPID_FIRE_RATE
      else if weapon_type = WEAPON_TYPE_LASER then 1 / LASER_FIRE_RATE
      else 1 / SPREAD_FIRE_RATE)"

text \<open>The body of the loop of \<open>server_handle_firing\<close>, for the player slot \<open>i\<close>.\<close>

definition handle_firing_of :: "real \<Rightarrow> nat \<Rightarrow> GameServer \<Rightarrow> GameServer" where
  "handle_firing_of dt i server =
     (let player = sv_players server ! i in
      if sp_active player = 0 then server
      else
        (let cooled = (if sp_fire_cooldown player > 0
                       then player\<lparr>sp_fire_cooldown := sp_fire_cooldown player - dt\<rparr>
                       else player);
             server1 = server\<lparr>sv_players := (sv_players server)[i := cooled]\<rparr>
         in if sp_input_flags cooled AND INPUT_FIRE \<noteq> 0 \<and> sp_fire_cooldown cooled \<le> 0 then
              (let server2 = server_spawn_bullet server1 i (sp_x cooled) (sp_y cooled);
                   fired = sv_players server2 ! i
               in server2\<lparr>sv_players := (sv_players server2)
                     [i := fired\<lparr>sp_fire_cooldown := get_weapon_cooldown (sp_weapon fired)\<rparr>]\<rparr>)
            else server1))"

definition server_handle_firing :: "GameServer \<Rightarrow> real \<Rightarrow> GameServer" where
  "server_handle_firing server dt = fold (handle_firing_of dt) [0..<MAX_PLAYERS] server"

text \<open>The body of the loop of \<open>server_update_physics\<close>, for the player slot \<open>i\<close>.\<close>

definition update_physics_of :: "real \<Rightarrow> nat \<Rightarrow> GameServer \<Rightarrow> GameServer" where
  "update_physics_of dt i server =
     (let player = sv_players server ! i in
      if sp_active player = 0 then server
      else
        (let flags = sp_input_flags player;
             ay0 = (if flags AND INPUT_UP \<noteq> 0 then - 1 else 0);
             ay1 = (if flags AND INPUT_DOWN \<noteq> 0 then 1 else ay0);
             ax0 = (if flags AND INPUT_LEFT \<noteq> 0 then - 1 else 0);
             ax1 = (if flags AND INPUT_RIGHT \<noteq> 0 then 1 else ax0);
             diagonal = (ax1 \<noteq> 0 \<and> ay1 \<noteq> 0);
             accel_x = (if diagonal then ax1 * (7071 / 10000) else ax1);
             accel_y = (if diagonal then ay1 * (7071 / 10000) else ay1);
             friction = PLAYER_FRICTION powr (dt * 60);
             vx1 = (sp_vx player + accel_x * PLAYER_ACCELERATION * dt) * friction;
             vy1 = (sp_vy player + accel_y * PLAYER_ACCELERATION * dt) * friction;
             speed = sqrt (vx1 * vx1 + vy1 * vy1);
             vx2 = (if speed > PLAYER_SPEED then vx1 * (PLAYER_SPEED / speed) else vx1);
             vy2 = (if speed > PLAYER_SPEED then vy1 * (PLAYER_SPEED / speed) else vy1);
             vx3 = (if \<bar>vx2\<bar> < 1 then 0 else vx2);
             vy3 = (if \<bar>vy2\<bar> < 1 then 0 else vy2);
             x1 = sp_x player + vx3 * dt;
             y1 = sp_y player + vy3 * dt;
             x2 = (if x1 < 32 then 32 else x1);
             vx4 = (if x1 < 32 then 0 else vx3);
             x3 = (if x2 > GAME_WIDTH - 32 then GAME_WIDTH - 32 else x2);
             vx5 = (if x2 > GAME_WIDTH - 32 then 0 else vx4);
             y2 = (if y1 < 32 then 32 else y1);
             vy4 = (if y1 < 32 then 0 else vy3);
             y3 = (if y2 > GAME_HEIGHT - 32 then GAME_HEIGHT - 32 else y2);
             vy5 = (if y2 > GAME_HEIGHT - 32 then 0 else vy4)
         in server\<lparr>sv_players := (sv_players server)
               [i := player\<lparr>sp_x := x3, sp_y := y3, sp_vx := vx5, sp_vy := vy5\<rparr>]\<rparr>))"

definition server_update_physics :: "GameServer \<Rightarrow> real \<Rightarrow> GameServer" where
  "server_update_physics server dt = fold (update_physics_of dt) [0..<MAX_PLAYERS] server"

subsection \<open>Broadcasting the game state\<close>

text \<open>
  \<open>server_send_state\<close> builds the message in a buffer from \<open>malloc\<close> and writes the
  structures into it through pointers. The buffer is a list of bytes; a write of
  \<open>bs\<close> at offset \<open>off\<close> that does not fit is undefined behaviour in C and \<open>None\<close> here.
\<close>

definition put :: "int \<Rightarrow> u8 list \<Rightarrow> u8 list \<Rightarrow> u8 list option" where
  "put off bs buf =
     (if 0 \<le> off \<and> off + int (length bs) \<le> int (length buf)
      then Some (take (nat off) buf @ bs @ drop (nat off + length bs) buf)
      else None)"

text \<open>The first loop: the active bullets, counted up to \<open>MAX_SYNC_BULLETS\<close>.\<close>

fun count_sync_bullets :: "ServerBullet list \<Rightarrow> nat list \<Rightarrow> int \<Rightarrow> int" where
  "count_sync_bullets bs [] bullet_count = bullet_count"
| "count_sync_bullets bs (i # rest) bullet_count =
     (if bullet_count < MAX_SYNC_BULLETS then
        count_sync_bullets bs rest
          (if sb_active (bs ! i) \<noteq> 0 then bullet_count + 1 else bullet_count)
      else bullet_count)"

text \<open>
  The snapshot of one player and of one bullet, as the loops assign it field by field.
  \<open>fb\<close> gives the 32-bit pattern of a \<open>float\<close>.
\<close>

definition PlayerState_of :: "(real \<Rightarrow> u32) \<Rightarrow> nat \<Rightarrow> ServerPlayer \<Rightarrow> PlayerState" where
  "PlayerState_of fb i sp =
     \<lparr>ps_player_id = word_of_nat i, ps_x = fb (sp_x sp), ps_y = fb (sp_y sp),
      ps_vx = fb (sp_vx sp), ps_vy = fb (sp_vy sp), ps_health = word_of_int (sp_health sp),
      ps_weapon = sp_weapon sp,
      ps_flags = (if sp_input_flags sp AND INPUT_FIRE \<noteq> 0 then 1 else 0)\<rparr>"

definition BulletState_of :: "(real \<Rightarrow> u32) \<Rightarrow> ServerBullet \<Rightarrow> BulletState" where
  "BulletState_of fb sb =
     \<lparr>bs_owner_id = sb_owner_id sb, bs_x = fb (sb_x sb), bs_y = fb (sb_y sb),
      bs_vx = fb (sb_vx sb), bs_vy = fb (sb_vy sb), bs_weapon_type = sb_weapon_type sb\<rparr>"

text \<open>The second loop: \<open>state->players[idx]\<close> is at offset
  \<open>sizeof(MessageHeader) + sizeof(GameStateMsg) + idx * sizeof(PlayerState)\<close>.\<close>

fun fill_players ::
  "byte_order \<Rightarrow> (real \<Rightarrow> u32) \<Rightarrow> ServerPlayer list \<Rightarrow> nat list \<Rightarrow> int \<Rightarrow> u8 list
     \<Rightarrow> u8 list option" where
  "fill_players e fb ps [] idx buf = Some buf"
| "fill_players e fb ps (i # rest) idx buf =
     (if sp_active (ps ! i) = 0 then fill_players e fb ps rest idx buf
      else
        (case put (sizeof_MessageHeader + sizeof_GameStateMsg + idx * sizeof_PlayerState)
                (PlayerState_bytes e (PlayerState_of fb i (ps ! i))) buf of
           None \<Rightarrow> None
         | Some buf' \<Rightarrow> fill_players e fb ps rest (idx + 1) buf'))"

text \<open>The third loop: \<open>bullets_data[bidx]\<close> is at offset \<open>base + bidx * sizeof(BulletState)\<close>.\<close>

fun fill_bullets ::
  "byte_order \<Rightarrow> (real \<Rightarrow> u32) \<Rightarrow> ServerBullet list \<Rightarrow> nat list \<Rightarrow> int \<Rightarrow> int \<Rightarrow> int
     \<Rightarrow> u8 list \<Rightarrow> u8 list option" where
  "fill_bullets e fb bs [] bidx bullet_count base buf = Some buf"
| "fill_bullets e fb bs (i # rest) bidx bullet_count base buf =
     (if bidx < bullet_count then
        (if sb_active (bs ! i) = 0 then fill_bullets e fb bs rest bidx bullet_count base buf
         else
           (case put (base + bidx * sizeof_BulletState)
                   (BulletState_bytes e (BulletState_of fb (bs ! i))) buf of
              None \<Rightarrow> None
            | Some buf' \<Rightarrow> fill_bullets e fb bs rest (bidx + 1) bullet_count base buf'))
      else Some buf)"

text \<open>
  The last loop: every active player gets the buffer with \<open>your_sequence\<close> (at offset
  \<open>sizeof(MessageHeader) + 4\<close>) set to its own last sequence. \<open>sent i\<close> is what
  \<open>net_send_all\<close> returns for the player slot \<open>i\<close>.
\<close>

fun send_to_players ::
  "byte_order \<Rightarrow> (nat \<Rightarrow> int) \<Rightarrow> nat list \<Rightarrow> u8 list \<Rightarrow> GameServer
     \<Rightarrow> (GameServer \<times> event list) option" where
  "send_to_players e sent [] buf server = Some (server, [])"
| "send_to_players e sent (i # rest) buf server =
     (let player = sv_players server ! i in
      if sp_active player = 0 then send_to_players e sent rest buf server
      else
        (case put (sizeof_MessageHeader + 4) (store32 e (sp_last_sequence player)) buf of
           None \<Rightarrow> None
         | Some buf' \<Rightarrow>
             if sent i < 0 then
               map_option (\<lambda>(s, evs). (s, [Send (sp_socket player) buf'] @ net_close (sp_socket player) @ evs))
                 (send_to_players e sent rest buf'
                    (server\<lparr>sv_players := (sv_players server)[i := player\<lparr>sp_active := 0\<rparr>],
                            sv_player_count := sv_player_count server - 1\<rparr>))
             else
               map_option (\<lambda>(s, evs). (s, [Send (sp_socket player) buf'] @ evs))
                 (send_to_players e sent rest buf' server)))"

text \<open>The buffer as it stands before the last loop. \<open>fresh\<close> is what the block from
  \<open>malloc\<close> holds when it is handed out.\<close>

definition build_state ::
  "byte_order \<Rightarrow> (real \<Rightarrow> u32) \<Rightarrow> (nat \<Rightarrow> u8) \<Rightarrow> GameServer \<Rightarrow> u8 list option" where
  "build_state e fb fresh server =
     (let bullet_count = count_sync_bullets (sv_bullets server) [0..<MAX_SERVER_BULLETS] 0;
          state_size = sizeof_GameStateMsg + sv_player_count server * sizeof_PlayerState
                         + bullet_count * sizeof_BulletState;
          total_size = sizeof_MessageHeader + state_size;
          buffer = map fresh [0..<nat total_size];
          header = \<lparr>h_type = MSG_GAME_STATE, h_length = word_of_int state_size\<rparr>;
          state = \<lparr>gm_tick = sv_tick server, gm_your_sequence = 0,
                   gm_player_count = word_of_int (sv_player_count server),
                   gm_bullet_count = word_of_int bullet_count\<rparr>
      in case put 0 (MessageHeader_bytes e header) buffer of
           None \<Rightarrow> None
         | Some b1 \<Rightarrow>
             (case put sizeof_MessageHeader (GameStateMsg_bytes e state) b1 of
                None \<Rightarrow> None
              | Some b2 \<Rightarrow>
                  (case fill_players e fb (sv_players server) [0..<MAX_PLAYERS] 0 b2 of
                     None \<Rightarrow> None
                   | Some b3 \<Rightarrow>
                       fill_bullets e fb (sv_bullets server) [0..<MAX_SERVER_BULLETS] 0
                         bullet_count
                         (sizeof_MessageHeader + sizeof_GameStateMsg
                            + sv_player_count server * sizeof_PlayerState) b3)))"

text \<open>\<open>malloc\<close> returns \<open>NULL\<close> (\<open>None\<close>) or a block with some contents.\<close>

definition server_send_state ::
  "byte_order \<Rightarrow> (real \<Rightarrow> u32) \<Rightarrow> (nat \<Rightarrow> u8) option \<Rightarrow> (nat \<Rightarrow> int) \<Rightarrow> GameServer
     \<Rightarrow> (GameServer \<times> event list) option" where
  "server_send_state e fb mem sent server =
     (case mem of
        None \<Rightarrow> Some (server, [])
      | Some fresh \<Rightarrow>
          (case build_state e fb fresh server of
             None \<Rightarrow> None
           | Some buffer \<Rightarrow> send_to_players e sent [0..<MAX_PLAYERS] buffer server))"

subsection \<open>One turn of the loop of \<open>main\<close>\<close>

record tick_io =
  t_accept :: accept_io
  t_client :: "nat \<Rightarrow> client_io"
  t_malloc :: "(nat \<Rightarrow> u8) option"
  t_sent :: "nat \<Rightarrow> int"

definition handle_messages ::
  "byte_order \<Rightarrow> (nat \<Rightarrow> client_io) \<Rightarrow> GameServer \<Rightarrow> GameServer \<times> event list" where
  "handle_messages e ios server =
     fold (\<lambda>i (s, evs).
             if sp_active (sv_players s ! i) \<noteq> 0
             then (let (s', evs') = server_handle_client_message e (ios i) s i in (s', evs @ evs'))
             else (s, evs))
       [0..<MAX_PLAYERS] (server, [])"

definition main_loop_turn ::
  "byte_order \<Rightarrow> (real \<Rightarrow> u32) \<Rightarrow> tick_io \<Rightarrow> GameServer \<Rightarrow> (GameServer \<times> event list) option" where
  "main_loop_turn e fb io server =
     (let dt = 1 / TICK_RATE;
          (s1, evs1) = server_accept_new_client e (t_accept io) server;
          (s2, evs2) = handle_messages e (t_client io) s1;
          s3 = server_update_physics s2 dt;
          s4 = server_handle_firing s3 dt;
          s5 = server_update_bullets s4 dt
      in map_option (\<lambda>(s6, evs3). (s6\<lparr>sv_tick := sv_tick s6 + 1\<rparr>, evs1 @ evs2 @ evs3))
           (if sv_player_count s5 > 0 then server_send_state e fb (t_malloc io) (t_sent io) s5
            else Some (s5, [])))"

section \<open>The client's shared state (shared_state.h, shared_state.c)\<close>

datatype NetworkStatus = NET_DISCONNECTED | NET_CONNECTING | NET_CONNECTED | NET_ERROR

definition MAX_REMOTE_BULLETS :: int where "MAX_REMOTE_BULLETS = 50"

record RemotePlayer =
  rp_active :: int
  rp_id :: u8
  rp_x :: real
  rp_y :: real
  rp_vx :: real
  rp_vy :: real
  rp_health :: int
  rp_weapon :: u8

record RemoteBullet =
  rb_active :: int
  rb_owner_id :: u8
  rb_x :: real
  rb_y :: real
  rb_vx :: real
  rb_vy :: real
  rb_weapon_type :: u8

text \<open>The mutex is left out: every function below runs between its lock and its unlock.\<close>

record SharedState =
  ss_status :: NetworkStatus
  ss_status_message :: string
  ss_my_id :: u8
  ss_players :: "RemotePlayer list"
  ss_player_count :: int
  ss_server_tick :: u32
  ss_bullets :: "RemoteBullet list"
  ss_bullet_count :: int
  ss_input_to_send :: u8
  ss_weapon_type :: u8
  ss_input_sequence :: u32
  ss_ping_ms :: real
  ss_packets_received :: int
  ss_packets_sent :: int

text \<open>
  Array accesses with a C \<open>int\<close> index: outside the array they are undefined behaviour
  in C and \<open>None\<close> here.
\<close>

definition arr_read :: "'a list \<Rightarrow> int \<Rightarrow> 'a option" where
  "arr_read xs i = (if 0 \<le> i \<and> i < int (length xs) then Some (xs ! nat i) else None)"

definition arr_write :: "'a list \<Rightarrow> int \<Rightarrow> 'a \<Rightarrow> 'a list option" where
  "arr_write xs i v = (if 0 \<le> i \<and> i < int (length xs) then Some (xs[nat i := v]) else None)"

text \<open>The first loop of \<open>shared_state_update_players\<close>: \<open>i\<close> from 0 below \<open>MAX_PLAYERS\<close>.\<close>

function clear_players :: "int \<Rightarrow> RemotePlayer list \<Rightarrow> RemotePlayer list option" where
  "clear_players i dst =
     (if i < int MAX_PLAYERS then
        (case arr_read dst i of
           None \<Rightarrow> None
         | Some p \<Rightarrow>
             (case arr_write dst i (p\<lparr>rp_active := 0\<rparr>) of
                None \<Rightarrow> None
              | Some dst' \<Rightarrow> clear_players (i + 1) dst'))
      else Some dst)"
  by pat_completeness auto
termination
  by (relation "measure (\<lambda>(i, dst). nat (int MAX_PLAYERS - i))") auto

text \<open>The second loop: \<open>state->players[i] = players[i]; state->players[i].active = 1\<close>.\<close>

function copy_players ::
  "RemotePlayer list \<Rightarrow> int \<Rightarrow> int \<Rightarrow> RemotePlayer list \<Rightarrow> RemotePlayer list option" where
  "copy_players src copied i dst =
     (if i < copied then
        (case arr_read src i of
           None \<Rightarrow> None
         | Some p \<Rightarrow>
             (case arr_write dst i (p\<lparr>rp_active := 1\<rparr>) of
                None \<Rightarrow> None
              | Some dst' \<Rightarrow> copy_players src copied (i + 1) dst'))
      else Some dst)"
  by pat_completeness auto
termination
  by (relation "measure (\<lambda>(src, copied, i, dst). nat (copied - i))") auto

text \<open>
  \<open>players\<close> is the caller's array (\<open>None\<close> for a NULL pointer, which returns at once);
  the state pointer is taken as not NULL.
\<close>

definition shared_state_update_players ::
  "SharedState \<Rightarrow> RemotePlayer list option \<Rightarrow> int \<Rightarrow> u32 \<Rightarrow> SharedState option" where
  "shared_state_update_players state players count server_tick =
     (case players of
        None \<Rightarrow> Some state
      | Some src \<Rightarrow>
          (case clear_players 0 (ss_players state) of
             None \<Rightarrow> None
           | Some cleared \<Rightarrow>
               (let copied = (if count > int MAX_PLAYERS then int MAX_PLAYERS else count) in
                case copy_players src copied 0 cleared of
                  None \<Rightarrow> None
                | Some dst \<Rightarrow>
                    Some (state\<lparr>ss_players := dst, ss_player_count := copied,
                                ss_server_tick := server_tick,
                                ss_packets_received := ss_packets_received state + 1\<rparr>))))"

text \<open>
  \<open>shared_state_copy_players\<close> copies the whole table into the caller's array \<open>out\<close> and
  returns the stored count; with a NULL \<open>out\<close> it returns 0 and copies nothing. An \<open>out\<close>
  shorter than the table is \<open>None\<close>.
\<close>

definition shared_state_copy_players ::
  "SharedState \<Rightarrow> RemotePlayer list option \<Rightarrow> (int \<times> RemotePlayer list option) option" where
  "shared_state_copy_players state out =
     (case out of
        None \<Rightarrow> Some (0, None)
      | Some buf \<Rightarrow>
          if length (ss_players state) \<le> length buf
          then Some (ss_player_count state,
                     Some (ss_players state @ drop (length (ss_players state)) buf))
          else None)"

definition shared_state_set_input :: "SharedState \<Rightarrow> u8 \<Rightarrow> u8 \<Rightarrow> SharedState" where
  "shared_state_set_input state input_flags weapon_type =
     state\<lparr>ss_input_to_send := input_flags, ss_weapon_type := weapon_type,
           ss_input_sequence := ss_input_sequence state + 1\<rparr>"

text \<open>The flags returned, with the sequence and the weapon type stored through the two
  pointers.\<close>

definition shared_state_get_input :: "SharedState \<Rightarrow> u8 \<times> u32 \<times> u8" where
  "shared_state_get_input state =
     (ss_input_to_send state, ss_input_sequence state, ss_weapon_type state)"

section \<open>The client's network thread (network_client.c)\<close>

record NetworkClient =
  nc_running :: int
  nc_socket :: Socket
  nc_port :: u16
  nc_shared :: SharedState
  nc_player_id :: u8

definition thread_send_input :: "byte_order \<Rightarrow> NetworkClient \<Rightarrow> NetworkClient \<times> event list" where
  "thread_send_input e client =
     (let (flags, sequence, weapon_type) = shared_state_get_input (nc_shared client);
          input = \<lparr>in_player_id = nc_player_id client, in_input_flags = flags,
                   in_weapon_type = weapon_type, in_sequence = sequence\<rparr>;
          header = \<lparr>h_type = MSG_PLAYER_INPUT, h_length = word_of_int sizeof_PlayerInputMsg\<rparr>
      in (client\<lparr>nc_shared := (nc_shared client)
                    \<lparr>ss_packets_sent := ss_packets_sent (nc_shared client) + 1\<rparr>\<rparr>,
          [Send (nc_socket client) (MessageHeader_bytes e header),
           Send (nc_socket client) (PlayerInputMsg_bytes e input)]))"

text \<open>The connect request the thread sends first: \<open>strncpy\<close> of \<open>"Player"\<close> into the
  16-byte name.\<close>

definition connect_request :: "byte_order \<Rightarrow> Socket \<Rightarrow> event list" where
  "connect_request e socket =
     (let connect_msg = \<lparr>cm_version = PROTOCOL_VERSION,
                         cm_name = c_strncpy 16 [0x50, 0x6C, 0x61, 0x79, 0x65, 0x72, 0]\<rparr>;
          header = \<lparr>h_type = MSG_CONNECT, h_length = word_of_int sizeof_ConnectMsg\<rparr>
      in [Send socket (MessageHeader_bytes e header), Send socket (ConnectMsg_bytes connect_msg)])"

section \<open>Scenarios used in the statements below\<close>

text \<open>
  A \<open>PlayerInput\<close> message that arrives whole: the header is read in full, its type is
  \<open>MSG_PLAYER_INPUT\<close>, and the payload is read in full.
\<close>

definition input_arrival :: "PlayerInputMsg \<Rightarrow> client_io" where
  "input_arrival m =
     \<lparr>io_recv_ret = sizeof_MessageHeader, io_errno = EAGAIN,
      io_header = \<lparr>h_type = MSG_PLAYER_INPUT, h_length = word_of_int sizeof_PlayerInputMsg\<rparr>,
      io_payload_ret = sizeof_PlayerInputMsg, io_input = m, io_ping = \<lparr>pi_timestamp = 0\<rparr>\<rparr>"

text \<open>A slot with an input applied: the three assignments of the \<open>MSG_PLAYER_INPUT\<close> case.\<close>

definition apply_input :: "PlayerInputMsg \<Rightarrow> ServerPlayer \<Rightarrow> ServerPlayer" where
  "apply_input m p = p\<lparr>sp_last_sequence := in_sequence m, sp_input_flags := in_input_flags m,
                        sp_weapon := in_weapon_type m\<rparr>"

text \<open>
  The messages \<open>ms\<close> arrive one after the other for the slot \<open>player_id\<close>, one call of
  \<open>server_handle_client_message\<close> each. The result is the server after the last call,
  with the messages whose call changed the server, in arrival order.
\<close>

fun receive_inputs ::
  "byte_order \<Rightarrow> nat \<Rightarrow> PlayerInputMsg list \<Rightarrow> GameServer
     \<Rightarrow> GameServer \<times> PlayerInputMsg list" where
  "receive_inputs e player_id [] server = (server, [])"
| "receive_inputs e player_id (m # ms) server =
     (let server' = fst (server_handle_client_message e (input_arrival m) server player_id);
          (server'', applied) = receive_inputs e player_id ms server'
      in (server'', (if server' \<noteq> server then [m] else []) @ applied))"

definition zeroed_bullet :: ServerBullet where
  "zeroed_bullet =
     \<lparr>sb_active = 0, sb_owner_id = 0, sb_x = 0, sb_y = 0, sb_vx = 0, sb_vy = 0,
      sb_weapon_type = 0, sb_lifetime = 0\<rparr>"

text \<open>A server with one client, in slot 0, and no bullet.\<close>

definition one_client_server :: GameServer where
  "one_client_server =
     \<lparr>sv_listen_socket = 3,
      sv_players = [zeroed_player\<lparr>sp_active := 1, sp_socket := 4, sp_x := 100, sp_y := 400,
                                  sp_health := 100\<rparr>,
                    zeroed_player, zeroed_player, zeroed_player],
      sv_player_count = 1, sv_tick = 0,
      sv_bullets = replicate 200 zeroed_bullet, sv_bullet_count = 0\<rparr>"

definition input_with_sequence :: "u32 \<Rightarrow> PlayerInputMsg" where
  "input_with_sequence n =
     \<lparr>in_player_id = 0, in_input_flags = ucast n, in_weapon_type = 1, in_sequence = n\<rparr>"

text \<open>A connection whose connect request carries protocol version 2.\<close>

definition version_2_connect :: accept_io where
  "version_2_connect =
     \<lparr>acc_socket = 7, acc_addr = (0, 0), acc_hdr_ret = 3,
      acc_hdr = \<lparr>h_type = MSG_CONNECT, h_length = 17\<rparr>, acc_msg_ret = 17,
      acc_msg = \<lparr>cm_version = 2, cm_name = replicate 16 0\<rparr>\<rparr>"

text \<open>A shared state after \<open>shared_state_init\<close>, and six players received from a server.\<close>

definition initial_shared_state :: SharedState where
  "initial_shared_state =
     \<lparr>ss_status = NET_DISCONNECTED, ss_status_message = ''Not connected'', ss_my_id = 0,
      ss_players = replicate 4 \<lparr>rp_active = 0, rp_id = 0, rp_x = 0, rp_y = 0, rp_vx = 0,
                                 rp_vy = 0, rp_health = 0, rp_weapon = 0\<rparr>,
      ss_player_count = 0, ss_server_tick = 0,
      ss_bullets = replicate 50 \<lparr>rb_active = 0, rb_owner_id = 0, rb_x = 0, rb_y = 0,
                                  rb_vx = 0, rb_vy = 0, rb_weapon_type = 0\<rparr>,
      ss_bullet_count = 0, ss_input_to_send = 0, ss_weapon_type = 0, ss_input_sequence = 0,
      ss_ping_ms = 0, ss_packets_received = 0, ss_packets_sent = 0\<rparr>"

definition six_remote_players :: "RemotePlayer list" where
  "six_remote_players =
     map (\<lambda>k. \<lparr>rp_active = 1, rp_id = word_of_nat k, rp_x = 100, rp_y = 400, rp_vx = 0,
                rp_vy = 0, rp_health = 100, rp_weapon = 0\<rparr>) [0, 1, 2, 3, 4, 5]"

section \<open>Invariants of the server state\<close>

text \<open>The two tables have their declared sizes.\<close>

definition wf_server :: "GameServer \<Rightarrow> bool" where
  "wf_server server =
     (length (sv_players server) = MAX_PLAYERS \<and> length (sv_bullets server) = MAX_SERVER_BULLETS)"

definition active_players :: "GameServer \<Rightarrow> nat list" where
  "active_players server =
     filter (\<lambda>i. sp_active (sv_players server ! i) \<noteq> 0) [0..<MAX_PLAYERS]"

definition active_bullets :: "GameServer \<Rightarrow> nat list" where
  "active_bullets server =
     filter (\<lambda>i. sb_active (sv_bullets server ! i) \<noteq> 0) [0..<MAX_SERVER_BULLETS]"

text \<open>The counts are the numbers of slots whose \<open>active\<close> flag is set.\<close>

definition players_counted :: "GameServer \<Rightarrow> bool" where
  "players_counted server = (sv_player_count server = int (length (active_players server)))"

definition bullets_counted :: "GameServer \<Rightarrow> bool" where
  "bullets_counted server = (sv_bullet_count server = int (length (active_bullets server)))"

text \<open>The buffer of a snapshot with \<open>your_sequence\<close> set to \<open>n\<close>.\<close>

definition with_sequence :: "byte_order \<Rightarrow> u8 list \<Rightarrow> u32 \<Rightarrow> u8 list" where
  "with_sequence e buf n = take 7 buf @ store32 e n @ drop 11 buf"

text \<open>
  The records of a snapshot: one for every active player, in slot order, and one for
  each of the first \<open>MAX_SYNC_BULLETS\<close> active bullets, in slot order.
\<close>

definition snapshot_players :: "(real \<Rightarrow> u32) \<Rightarrow> GameServer \<Rightarrow> PlayerState list" where
  "snapshot_players fb server =
     map (\<lambda>i. PlayerState_of fb i (sv_players server ! i)) (active_players server)"

definition synced_bullets :: "GameServer \<Rightarrow> nat list" where
  "synced_bullets server = take (nat MAX_SYNC_BULLETS) (active_bullets server)"

definition snapshot_bullets :: "(real \<Rightarrow> u32) \<Rightarrow> GameServer \<Rightarrow> BulletState list" where
  "snapshot_bullets fb server =
     map (\<lambda>i. BulletState_of fb (sv_bullets server ! i)) (synced_bullets server)"

definition snapshot_header :: "(real \<Rightarrow> u32) \<Rightarrow> GameServer \<Rightarrow> MessageHeader" where
  "snapshot_header fb server =
     \<lparr>h_type = MSG_GAME_STATE,
      h_length = word_of_int (sizeof_GameStateMsg
                   + int (length (snapshot_players fb server)) * sizeof_PlayerState
                   + int (length (snapshot_bullets fb server)) * sizeof_BulletState)\<rparr>"

definition snapshot_fixed :: "(real \<Rightarrow> u32) \<Rightarrow> GameServer \<Rightarrow> GameStateMsg" where
  "snapshot_fixed fb server =
     \<lparr>gm_tick = sv_tick server, gm_your_sequence = 0,
      gm_player_count = word_of_nat (length (snapshot_players fb server)),
      gm_bullet_count = word_of_nat (length (snapshot_bullets fb server))\<rparr>"

definition snapshot_payload :: "byte_order \<Rightarrow> (real \<Rightarrow> u32) \<Rightarrow> GameServer \<Rightarrow> u8 list" where
  "snapshot_payload e fb server =
     GameStateMsg_bytes e (snapshot_fixed fb server)
       @ concat (map (PlayerState_bytes e) (snapshot_players fb server))
       @ concat (map (BulletState_bytes e) (snapshot_bullets fb server))"

text \<open>
  What a broadcast of the buffer \<open>buf\<close> to the slots \<open>slots\<close> of the table \<open>ps\<close> does to
  the sockets: every active slot is sent the buffer with its own sequence, and is closed
  when that send fails. The slots whose send fails are the failed ones.
\<close>

definition broadcast_events ::
  "byte_order \<Rightarrow> (nat \<Rightarrow> int) \<Rightarrow> u8 list \<Rightarrow> ServerPlayer list \<Rightarrow> nat list \<Rightarrow> event list" where
  "broadcast_events e sent buf ps slots =
     concat (map (\<lambda>i. if sp_active (ps ! i) = 0 then []
                      else Send (sp_socket (ps ! i)) (with_sequence e buf (sp_last_sequence (ps ! i)))
                           # (if sent i < 0 then net_close (sp_socket (ps ! i)) else []))
               slots)"

definition failed_sends :: "(nat \<Rightarrow> int) \<Rightarrow> ServerPlayer list \<Rightarrow> nat list \<Rightarrow> nat list" where
  "failed_sends sent ps slots = filter (\<lambda>i. sp_active (ps ! i) \<noteq> 0 \<and> sent i < 0) slots"

definition deactivate :: "nat \<Rightarrow> ServerPlayer list \<Rightarrow> ServerPlayer list" where
  "deactivate i ps = ps[i := (ps ! i)\<lparr>sp_active := 0\<rparr>]"

text \<open>
  A message as the receiver frames it: three bytes of header, whose length field (read
  in the byte order \<open>e\<close>) is the number of bytes that follow.
\<close>

definition well_framed :: "byte_order \<Rightarrow> u8 list \<Rightarrow> bool" where
  "well_framed e msg =
     (3 \<le> length msg \<and> unat (load16 e (take 2 (drop 1 msg))) = length msg - 3)"

text \<open>The bytes that a list of events sends, in order.\<close>

definition sent_bytes :: "event list \<Rightarrow> u8 list" where
  "sent_bytes evs = concat (map (\<lambda>ev. case ev of Send s b \<Rightarrow> b | Close s \<Rightarrow> []) evs)"

text \<open>
  The bit patterns of the \<open>float\<close> values of the scenarios (0, 100 and 400 in IEEE 754
  single precision); a block from \<open>malloc\<close> that holds zeros; and the results of
  \<open>net_send_all\<close> when the send to slot 0 fails and every other send goes through.
\<close>

definition sample_float_bits :: "real \<Rightarrow> u32" where
  "sample_float_bits x =
     (if x = 0 then 0 else if x = 100 then 0x42C80000 else if x = 400 then 0x43C80000
      else 0x7FC00000)"

definition cleared_block :: "nat \<Rightarrow> u8" where
  "cleared_block n = 0"

definition send_to_slot_0_fails :: "nat \<Rightarrow> int" where
  "send_to_slot_0_fails i = (if i = 0 then - 1 else 34)"

text \<open>Two clients, in the slots 0 and 1, and no bullet.\<close>

definition two_client_server :: GameServer where
  "two_client_server =
     \<lparr>sv_listen_socket = 3,
      sv_players = [zeroed_player\<lparr>sp_active := 1, sp_socket := 4, sp_x := 100, sp_y := 400,
                                  sp_health := 100, sp_last_sequence := 9\<rparr>,
                    zeroed_player\<lparr>sp_active := 1, sp_socket := 5, sp_x := 100, sp_y := 400,
                                  sp_health := 100, sp_last_sequence := 12\<rparr>,
                    zeroed_player, zeroed_player],
      sv_player_count = 2, sv_tick = 0,
      sv_bullets = replicate 200 zeroed_bullet, sv_bullet_count = 0\<rparr>"

text \<open>
  A bullet table with 51 live bullets: the one in slot 0 has just been spawned (its
  remaining lifetime is the full \<open>BULLET_LIFETIME\<close>), the 50 in the slots 1 to 50 were
  spawned half a second earlier. A bullet's remaining lifetime starts at
  \<open>BULLET_LIFETIME\<close> and every update takes the same \<open>dt\<close> from all of them, so the
  bullet with the smaller remaining lifetime is the older one. The table arises when
  the bullet in slot 0 leaves the field and the next spawn takes the lowest free slot.
\<close>

definition young_bullet :: ServerBullet where
  "young_bullet =
     \<lparr>sb_active = 1, sb_owner_id = 0, sb_x = 100, sb_y = 400, sb_vx = 0, sb_vy = 0,
      sb_weapon_type = 2, sb_lifetime = 2\<rparr>"

definition old_bullet :: ServerBullet where
  "old_bullet =
     \<lparr>sb_active = 1, sb_owner_id = 0, sb_x = 100, sb_y = 100, sb_vx = 0, sb_vy = 0,
      sb_weapon_type = 1, sb_lifetime = 3 / 2\<rparr>"

definition fifty_one_bullets :: GameServer where
  "fifty_one_bullets =
     one_client_server
       \<lparr>sv_bullets := young_bullet # replicate 50 old_bullet @ replicate 149 zeroed_bullet,
        sv_bullet_count := 51\<rparr>"

section \<open>Firing\<close>

text \<open>
  The bullet that \<open>server_spawn_single_bullet\<close> writes; the marks of a bullet spawned
  by the player \<open>pid\<close> with the weapon \<open>w\<close>; and what a spawn leaves as it was: the
  players, the tick, the sockets and every live bullet.
\<close>

definition new_bullet :: "nat \<Rightarrow> real \<Rightarrow> real \<Rightarrow> real \<Rightarrow> real \<Rightarrow> u8 \<Rightarrow> ServerBullet" where
  "new_bullet player_id x y vx vy weapon_type =
     \<lparr>sb_active = 1, sb_owner_id = word_of_nat player_id, sb_x = x, sb_y = y, sb_vx = vx,
      sb_vy = vy, sb_weapon_type = weapon_type, sb_lifetime = BULLET_LIFETIME\<rparr>"


definition bullets_kept :: "GameServer \<Rightarrow> GameServer \<Rightarrow> bool" where
  "bullets_kept s s' =
     (sv_players s' = sv_players s \<and> sv_tick s' = sv_tick s
      \<and> sv_listen_socket s' = sv_listen_socket s \<and> sv_player_count s' = sv_player_count s
      \<and> length (sv_bullets s') = length (sv_bullets s)
      \<and> sv_bullet_count s \<le> sv_bullet_count s'
      \<and> (\<forall>j. sb_active (sv_bullets s ! j) \<noteq> 0 \<longrightarrow> sv_bullets s' ! j = sv_bullets s ! j))"

text \<open>
  The cooldown of a slot after the first step of \<open>server_handle_firing\<close>, and the test
  of its second step: the fire flag is set and the cooldown has reached zero.
\<close>

definition cooled_down :: "real \<Rightarrow> ServerPlayer \<Rightarrow> real" where
  "cooled_down dt p =
     (if sp_fire_cooldown p > 0 then sp_fire_cooldown p - dt else sp_fire_cooldown p)"

definition may_fire :: "real \<Rightarrow> ServerPlayer \<Rightarrow> bool" where
  "may_fire dt p = (sp_input_flags p AND INPUT_FIRE \<noteq> 0 \<and> cooled_down dt p \<le> 0)"




section \<open>The state invariant\<close>

definition server_invariant :: "GameServer \<Rightarrow> bool" where
  "server_invariant server = (wf_server server \<and> players_counted server \<and> bullets_counted server)"

text \<open>
  What the storage of the \<open>GameServer\<close> of \<open>main\<close> may hold before \<open>server_init\<close> runs: here
  200 bullet slots with the \<open>active\<close> flag set and a bullet count of 0.
\<close>

definition stale_storage :: GameServer where
  "stale_storage =
     \<lparr>sv_listen_socket = 0, sv_players = replicate 4 (zeroed_player\<lparr>sp_active := 1\<rparr>),
      sv_player_count = 9, sv_tick = 77,
      sv_bullets = replicate 200 old_bullet, sv_bullet_count = 0\<rparr>"

text \<open>A client about to send the fire flag with the rapid weapon as its input 258.\<close>

definition sample_client :: NetworkClient where
  "sample_client =
     \<lparr>nc_running = 1, nc_socket = 6, nc_port = 8080,
      nc_shared = initial_shared_state\<lparr>ss_input_to_send := 16, ss_weapon_type := 1,
                                        ss_input_sequence := 258\<rparr>,
      nc_player_id = 0\<rparr>"

declare clear_players.simps [simp del] copy_players.simps [simp del]

section \<open>Input sequencing\<close>

lemma handle_input:
  assumes "io_recv_ret io = sizeof_MessageHeader" "h_type (io_header io) = MSG_PLAYER_INPUT"
    "0 < io_payload_ret io" "sp_active (sv_players server ! player_id) \<noteq> 0"
  shows "server_handle_client_message e io server player_id =
     (if sp_last_sequence (sv_players server ! player_id) < in_sequence (io_input io)
      then (server\<lparr>sv_players := (sv_players server)
               [player_id := apply_input (io_input io) (sv_players server ! player_id)]\<rparr>, [])
      else (server, []))"
  using assms
  by (auto simp: server_handle_client_message_def Let_def sizeof_MessageHeader_def
      apply_input_def MSG_PLAYER_INPUT_def)

lemma player_update_neq:
  assumes "player_id < length (sv_players server)" "p \<noteq> sv_players server ! player_id"
  shows "server\<lparr>sv_players := (sv_players server)[player_id := p]\<rparr> \<noteq> server"
proof
  assume "server\<lparr>sv_players := (sv_players server)[player_id := p]\<rparr> = server"
  then have "sv_players (server\<lparr>sv_players := (sv_players server)[player_id := p]\<rparr>)
      = sv_players server"
    by simp
  then have "(sv_players server)[player_id := p] ! player_id = sv_players server ! player_id"
    by simp
  with assms show False by simp
qed

lemma apply_input_sel:
  "sp_last_sequence (apply_input m p) = in_sequence m"
  "sp_input_flags (apply_input m p) = in_input_flags m"
  "sp_weapon (apply_input m p) = in_weapon_type m"
  "sp_active (apply_input m p) = sp_active p"
  by (simp_all add: apply_input_def)

lemma input_arrival_sel:
  "io_recv_ret (input_arrival m) = sizeof_MessageHeader"
  "h_type (io_header (input_arrival m)) = MSG_PLAYER_INPUT"
  "0 < io_payload_ret (input_arrival m)"
  "io_input (input_arrival m) = m"
  by (simp_all add: input_arrival_def sizeof_PlayerInputMsg_def)

lemma handle_arrival:
  assumes "sp_active (sv_players server ! player_id) \<noteq> 0"
  shows "server_handle_client_message e (input_arrival m) server player_id =
     (if sp_last_sequence (sv_players server ! player_id) < in_sequence m
      then (server\<lparr>sv_players := (sv_players server)
               [player_id := apply_input m (sv_players server ! player_id)]\<rparr>, [])
      else (server, []))"
  using handle_input[OF input_arrival_sel(1-3) assms] by (simp add: input_arrival_sel)

lemma receive_5_3_7_7_6:
  assumes "player_id < length (sv_players server)"
    and "sp_active (sv_players server ! player_id) \<noteq> 0"
    and "sp_last_sequence (sv_players server ! player_id) = 0"
    and "in_sequence m1 = 5" "in_sequence m2 = 3" "in_sequence m3 = 7"
      "in_sequence m4 = 7" "in_sequence m5 = 6"
  shows "receive_inputs e player_id [m1, m2, m3, m4, m5] server =
      (server\<lparr>sv_players := (sv_players server)
          [player_id := apply_input m3 (apply_input m1 (sv_players server ! player_id))]\<rparr>,
       [m1, m3])"
proof -
  let ?p = "sv_players server ! player_id"
  let ?s1 = "server\<lparr>sv_players := (sv_players server)[player_id := apply_input m1 ?p]\<rparr>"
  let ?s3 = "server\<lparr>sv_players := (sv_players server)
                [player_id := apply_input m3 (apply_input m1 ?p)]\<rparr>"
  have p1: "sv_players ?s1 ! player_id = apply_input m1 ?p" using assms(1) by simp
  have p3: "sv_players ?s3 ! player_id = apply_input m3 (apply_input m1 ?p)"
    using assms(1) by simp
  have a1: "sp_active (sv_players ?s1 ! player_id) \<noteq> 0"
    using assms(2) p1 by (simp add: apply_input_sel)
  have a3: "sp_active (sv_players ?s3 ! player_id) \<noteq> 0"
    using assms(2) p3 by (simp add: apply_input_sel)
  have "apply_input m1 ?p \<noteq> ?p"
    using apply_input_sel(1)[of m1 ?p] assms(3,4) by auto
  then have n1: "?s1 \<noteq> server"
    by (rule player_update_neq[OF assms(1)])
  have h1: "fst (server_handle_client_message e (input_arrival m1) server player_id) = ?s1"
    using assms by (simp add: handle_arrival)
  have h2: "fst (server_handle_client_message e (input_arrival m2) ?s1 player_id) = ?s1"
    using assms a1 p1 by (simp add: handle_arrival apply_input_sel)
  have h3: "fst (server_handle_client_message e (input_arrival m3) ?s1 player_id) = ?s3"
    using assms a1 p1 by (simp add: handle_arrival apply_input_sel)
  have n3: "?s3 \<noteq> ?s1"
  proof
    assume "?s3 = ?s1"
    then have "sv_players ?s3 ! player_id = sv_players ?s1 ! player_id" by simp
    then have "sp_last_sequence (apply_input m3 (apply_input m1 ?p))
        = sp_last_sequence (apply_input m1 ?p)"
      using p1 p3 by simp
    then show False using assms by (simp add: apply_input_sel)
  qed
  have h4: "fst (server_handle_client_message e (input_arrival m4) ?s3 player_id) = ?s3"
    using assms a3 p3 by (simp add: handle_arrival apply_input_sel)
  have h5: "fst (server_handle_client_message e (input_arrival m5) ?s3 player_id) = ?s3"
    using assms a3 p3 by (simp add: handle_arrival apply_input_sel)
  show ?thesis
    using n1 n3 by (simp add: h1 h2 h3 h4 h5 Let_def)
qed

lemma receive_inputs_run:
  assumes "player_id < length (sv_players server)"
    and "sp_active (sv_players server ! player_id) \<noteq> 0"
  shows "player_id < length (sv_players (fst (receive_inputs e player_id ms server)))
     \<and> sp_active (sv_players (fst (receive_inputs e player_id ms server)) ! player_id) \<noteq> 0
     \<and> sp_last_sequence (sv_players (fst (receive_inputs e player_id ms server)) ! player_id)
         = fold max (map in_sequence ms) (sp_last_sequence (sv_players server ! player_id))
     \<and> sorted_wrt (<) (map in_sequence (snd (receive_inputs e player_id ms server)))
     \<and> (\<forall>m \<in> set (snd (receive_inputs e player_id ms server)).
           m \<in> set ms \<and> sp_last_sequence (sv_players server ! player_id) < in_sequence m)"
  using assms
proof (induction ms arbitrary: server)
  case Nil
  then show ?case by simp
next
  case (Cons m ms)
  let ?p = "sv_players server ! player_id"
  let ?s1 = "fst (server_handle_client_message e (input_arrival m) server player_id)"
  have r: "receive_inputs e player_id (m # ms) server =
      (fst (receive_inputs e player_id ms ?s1),
       (if ?s1 \<noteq> server then [m] else []) @ snd (receive_inputs e player_id ms ?s1))"
    by (simp add: Let_def split_beta)
  show ?case
  proof (cases "sp_last_sequence ?p < in_sequence m")
    case True
    have s1: "?s1 = server\<lparr>sv_players := (sv_players server)[player_id := apply_input m ?p]\<rparr>"
      using True Cons.prems(2) by (simp add: handle_arrival)
    have "apply_input m ?p \<noteq> ?p"
      using apply_input_sel(1)[of m ?p] True by auto
    then have ne: "?s1 \<noteq> server"
      unfolding s1 by (rule player_update_neq[OF Cons.prems(1)])
    have p1: "sv_players ?s1 ! player_id = apply_input m ?p"
      using Cons.prems(1) by (simp add: s1)
    have a1: "player_id < length (sv_players ?s1)"
      unfolding s1 using Cons.prems(1) by simp
    have a2: "sp_active (sv_players ?s1 ! player_id) \<noteq> 0"
      using Cons.prems(2) by (simp add: p1 apply_input_sel)
    note a = a1 a2
    note ih = Cons.IH[OF a]
    have mx: "max (in_sequence m) (sp_last_sequence ?p) = in_sequence m"
      using True by (intro max.absorb1) (rule less_imp_le)
    have l1: "sp_last_sequence (sv_players ?s1 ! player_id) = in_sequence m"
      by (simp add: p1 apply_input_sel)
    have "sorted_wrt (<) (map in_sequence (m # snd (receive_inputs e player_id ms ?s1)))"
      using ih l1 by auto
    moreover have "\<forall>x \<in> set (m # snd (receive_inputs e player_id ms ?s1)).
        x \<in> set (m # ms) \<and> sp_last_sequence ?p < in_sequence x"
      using ih l1 True by auto
    ultimately show ?thesis
      unfolding r using ih ne l1 mx by simp
  next
    case False
    have s1: "?s1 = server"
      using False Cons.prems(2) by (simp add: handle_arrival)
    note ih = Cons.IH[OF Cons.prems]
    have mx: "max (in_sequence m) (sp_last_sequence ?p) = sp_last_sequence ?p"
      using False by (intro max.absorb2) (simp add: not_less)
    show ?thesis
      unfolding r s1 using ih mx by simp
  qed
qed

text \<open>
  C1. For an active player slot, a \<open>PlayerInput\<close> message that arrives whole is applied
  (its flags and weapon stored, the slot's last sequence set to the message's) if and
  only if its sequence is strictly greater than the slot's last accepted sequence;
  otherwise the call leaves the server as it was. A slot at sequence 0 that receives
  the sequences 5, 3, 7, 7, 6 applies the first and the third message only, in that
  order, and ends at sequence 7. For every arrival order, the slot ends at the greatest
  sequence seen, and the applied messages are arrivals of strictly increasing sequence,
  each above the sequence the slot started with.
\<close>

theorem C1_input_applied_iff_newer:
  assumes "player_id < length (sv_players server)"
    and "sp_active (sv_players server ! player_id) \<noteq> 0"
    and "io_recv_ret io = sizeof_MessageHeader"
    and "h_type (io_header io) = MSG_PLAYER_INPUT"
    and "0 < io_payload_ret io"
  shows "server_handle_client_message e io server player_id =
       (if sp_last_sequence (sv_players server ! player_id) < in_sequence (io_input io)
        then (server\<lparr>sv_players := (sv_players server)
                 [player_id := apply_input (io_input io) (sv_players server ! player_id)]\<rparr>, [])
        else (server, []))
     \<and> ((fst (server_handle_client_message e io server player_id) \<noteq> server)
          = (sp_last_sequence (sv_players server ! player_id) < in_sequence (io_input io)))
     \<and> (\<forall>m1 m2 m3 m4 m5.
          sp_last_sequence (sv_players server ! player_id) = 0 \<and> in_sequence m1 = 5
          \<and> in_sequence m2 = 3 \<and> in_sequence m3 = 7 \<and> in_sequence m4 = 7 \<and> in_sequence m5 = 6
          \<longrightarrow> snd (receive_inputs e player_id [m1, m2, m3, m4, m5] server) = [m1, m3]
            \<and> sv_players (fst (receive_inputs e player_id [m1, m2, m3, m4, m5] server)) ! player_id
                = apply_input m3 (apply_input m1 (sv_players server ! player_id))
            \<and> sp_last_sequence
                (sv_players (fst (receive_inputs e player_id [m1, m2, m3, m4, m5] server))
                   ! player_id) = 7)
     \<and> (\<forall>ms.
          sp_last_sequence (sv_players (fst (receive_inputs e player_id ms server)) ! player_id)
            = fold max (map in_sequence ms) (sp_last_sequence (sv_players server ! player_id))
          \<and> sorted_wrt (<) (map in_sequence (snd (receive_inputs e player_id ms server)))
          \<and> (\<forall>m \<in> set (snd (receive_inputs e player_id ms server)).
                m \<in> set ms \<and> sp_last_sequence (sv_players server ! player_id) < in_sequence m))"
    (is "?A \<and> ?B \<and> ?C \<and> ?D")
proof -
 have abc: "?A \<and> ?B \<and> ?C"
 proof (intro conjI allI impI)
  show g1: "server_handle_client_message e io server player_id =
       (if sp_last_sequence (sv_players server ! player_id) < in_sequence (io_input io)
        then (server\<lparr>sv_players := (sv_players server)
                 [player_id := apply_input (io_input io) (sv_players server ! player_id)]\<rparr>, [])
        else (server, []))"
    using assms by (simp add: handle_input)
  show "(fst (server_handle_client_message e io server player_id) \<noteq> server)
      = (sp_last_sequence (sv_players server ! player_id) < in_sequence (io_input io))"
  proof (cases "sp_last_sequence (sv_players server ! player_id) < in_sequence (io_input io)")
    case True
    then have "apply_input (io_input io) (sv_players server ! player_id)
        \<noteq> sv_players server ! player_id"
      using apply_input_sel(1)[of "io_input io" "sv_players server ! player_id"] by auto
    then show ?thesis using True g1 player_update_neq[OF assms(1)] by simp
  next
    case False
    then show ?thesis using g1 by simp
  qed
next
  fix m1 m2 m3 m4 m5 :: PlayerInputMsg
  assume h: "sp_last_sequence (sv_players server ! player_id) = 0 \<and> in_sequence m1 = 5
          \<and> in_sequence m2 = 3 \<and> in_sequence m3 = 7 \<and> in_sequence m4 = 7 \<and> in_sequence m5 = 6"
  have r: "receive_inputs e player_id [m1, m2, m3, m4, m5] server =
      (server\<lparr>sv_players := (sv_players server)
          [player_id := apply_input m3 (apply_input m1 (sv_players server ! player_id))]\<rparr>,
       [m1, m3])"
    using receive_5_3_7_7_6[OF assms(1,2)] h by blast
  show "snd (receive_inputs e player_id [m1, m2, m3, m4, m5] server) = [m1, m3]"
    by (simp only: r snd_conv)
  show "sv_players (fst (receive_inputs e player_id [m1, m2, m3, m4, m5] server)) ! player_id
      = apply_input m3 (apply_input m1 (sv_players server ! player_id))"
    using assms(1) by (simp del: receive_inputs.simps add: r)
  show "sp_last_sequence
      (sv_players (fst (receive_inputs e player_id [m1, m2, m3, m4, m5] server)) ! player_id) = 7"
    using assms(1) h by (simp del: receive_inputs.simps add: r apply_input_sel)
 qed
 have d: "?D"
   using receive_inputs_run[OF assms(1,2)] by blast
 show ?thesis
   by (rule conjI[OF abc[THEN conjunct1]
         conjI[OF abc[THEN conjunct2, THEN conjunct1]
           conjI[OF abc[THEN conjunct2, THEN conjunct2] d]]])
qed

theorem C1_input_applied_iff_newer_witness:
  "snd (receive_inputs LittleEndian 0
          [input_with_sequence 5, input_with_sequence 3, input_with_sequence 7,
           input_with_sequence 7, input_with_sequence 6] one_client_server)
     = [input_with_sequence 5, input_with_sequence 7]
   \<and> sp_last_sequence
       (sv_players (fst (receive_inputs LittleEndian 0
          [input_with_sequence 5, input_with_sequence 3, input_with_sequence 7,
           input_with_sequence 7, input_with_sequence 6] one_client_server)) ! 0) = 7
   \<and> fst (server_handle_client_message LittleEndian (input_arrival (input_with_sequence 5))
            one_client_server 0) \<noteq> one_client_server"
proof -
  have a: "0 < length (sv_players one_client_server)"
    and b: "sp_active (sv_players one_client_server ! 0) \<noteq> 0"
    and c: "sp_last_sequence (sv_players one_client_server ! 0) = 0"
    by (simp_all add: one_client_server_def zeroed_player_def)
  have s: "in_sequence (input_with_sequence 5) = 5" "in_sequence (input_with_sequence 3) = 3"
    "in_sequence (input_with_sequence 7) = 7" "in_sequence (input_with_sequence 6) = 6"
    by (simp_all add: input_with_sequence_def)
  note t = C1_input_applied_iff_newer[OF a b
      input_arrival_sel(1)[of "input_with_sequence 5"]
      input_arrival_sel(2)[of "input_with_sequence 5"]
      input_arrival_sel(3)[of "input_with_sequence 5"], where e = LittleEndian]
  have lt: "sp_last_sequence (sv_players one_client_server ! 0)
      < in_sequence (io_input (input_arrival (input_with_sequence 5)))"
    by (simp only: c input_arrival_sel s) simp
  from t[THEN conjunct2, THEN conjunct1] lt
  have n: "fst (server_handle_client_message LittleEndian
      (input_arrival (input_with_sequence 5)) one_client_server 0) \<noteq> one_client_server"
    by blast
  from t[THEN conjunct2, THEN conjunct2, THEN conjunct1] c s n show ?thesis
    by blast
qed

section \<open>Handshake\<close>

text \<open>
  C6. When the connect request of an incoming connection carries a protocol version
  other than the server's, the server sends a \<open>MSG_CONNECT_ACK\<close> whose payload is
  success 0, player id 0, reason 1 (version mismatch), closes the connection, and is
  itself unchanged: the player table and the player count are as before.
\<close>

theorem C6_version_mismatch_rejected:
  assumes "acc_socket io \<noteq> INVALID_SOCKET"
    and "acc_hdr_ret io = sizeof_MessageHeader"
    and "h_type (acc_hdr io) = MSG_CONNECT"
    and "acc_msg_ret io = sizeof_ConnectMsg"
    and "cm_version (acc_msg io) \<noteq> PROTOCOL_VERSION"
  shows "server_accept_new_client e io server =
      (server,
       [Send (acc_socket io)
          (MessageHeader_bytes e \<lparr>h_type = MSG_CONNECT_ACK, h_length = 3\<rparr>),
        Send (acc_socket io)
          (ConnectAckMsg_bytes \<lparr>ca_success = 0, ca_player_id = 0, ca_reason = 1\<rparr>),
        Close (acc_socket io)])
    \<and> ConnectAckMsg_bytes \<lparr>ca_success = 0, ca_player_id = 0, ca_reason = 1\<rparr> = [0, 0, 1]"
  using assms
  by (simp add: server_accept_new_client_def Let_def reject_def net_close_def
      sizeof_ConnectAckMsg_def ConnectAckMsg_bytes_def)

theorem C6_version_mismatch_rejected_witness:
  "server_accept_new_client LittleEndian version_2_connect one_client_server =
      (one_client_server,
       [Send 7 (MessageHeader_bytes LittleEndian \<lparr>h_type = MSG_CONNECT_ACK, h_length = 3\<rparr>),
        Send 7 [0, 0, 1], Close 7])"
proof -
  have "acc_socket version_2_connect \<noteq> INVALID_SOCKET"
    "acc_hdr_ret version_2_connect = sizeof_MessageHeader"
    "h_type (acc_hdr version_2_connect) = MSG_CONNECT"
    "acc_msg_ret version_2_connect = sizeof_ConnectMsg"
    "cm_version (acc_msg version_2_connect) \<noteq> PROTOCOL_VERSION"
    by (simp_all add: version_2_connect_def INVALID_SOCKET_def sizeof_MessageHeader_def
        sizeof_ConnectMsg_def PROTOCOL_VERSION_def)
  from C6_version_mismatch_rejected[OF this, of LittleEndian one_client_server]
  have "server_accept_new_client LittleEndian version_2_connect one_client_server =
      (one_client_server,
       [Send (acc_socket version_2_connect)
          (MessageHeader_bytes LittleEndian \<lparr>h_type = MSG_CONNECT_ACK, h_length = 3\<rparr>),
        Send (acc_socket version_2_connect) [0, 0, 1], Close (acc_socket version_2_connect)])"
    by simp
  moreover have "acc_socket version_2_connect = 7"
    by (simp add: version_2_connect_def)
  ultimately show ?thesis by simp
qed

section \<open>The client's player table\<close>

lemma clear_players_char:
  assumes "0 \<le> i" "length dst = MAX_PLAYERS"
  shows "\<exists>dst'. clear_players i dst = Some dst' \<and> length dst' = length dst
     \<and> (\<forall>j < length dst. dst' ! j = (if i \<le> int j \<and> j < MAX_PLAYERS then (dst ! j)\<lparr>rp_active := 0\<rparr> else dst ! j))"
  using assms
proof (induction i dst rule: clear_players.induct)
  case (1 i dst)
  show ?case
  proof (cases "i < int MAX_PLAYERS")
    case True
    then have r: "arr_read dst i = Some (dst ! nat i)" using 1(2,3) by (simp add: arr_read_def)
    have w: "arr_write dst i ((dst ! nat i)\<lparr>rp_active := 0\<rparr>) = Some (dst[nat i := (dst ! nat i)\<lparr>rp_active := 0\<rparr>])"
      using True 1(2,3) by (simp add: arr_write_def)
    from 1(1)[OF True r w] 1(2,3)
    obtain dst' where d: "clear_players (i + 1) (dst[nat i := (dst ! nat i)\<lparr>rp_active := 0\<rparr>]) = Some dst'"
      "length dst' = length dst"
      "\<forall>j < length dst. dst' ! j = (if i + 1 \<le> int j \<and> j < MAX_PLAYERS then ((dst[nat i := (dst ! nat i)\<lparr>rp_active := 0\<rparr>]) ! j)\<lparr>rp_active := 0\<rparr> else (dst[nat i := (dst ! nat i)\<lparr>rp_active := 0\<rparr>]) ! j)"
      by auto
    have "clear_players i dst = Some dst'"
      using True r w d(1) by (subst clear_players.simps) simp
    moreover have "\<forall>j < length dst. dst' ! j = (if i \<le> int j \<and> j < MAX_PLAYERS then (dst ! j)\<lparr>rp_active := 0\<rparr> else dst ! j)"
    proof (intro allI impI)
      fix j assume j: "j < length dst"
      show "dst' ! j = (if i \<le> int j \<and> j < MAX_PLAYERS then (dst ! j)\<lparr>rp_active := 0\<rparr> else dst ! j)"
        using d(3)[rule_format, OF j] j 1(2,3) True
        by (cases "j = nat i") (auto simp: nth_list_update)
    qed
    ultimately show ?thesis using d(2) by blast
  next
    case False
    then have "clear_players i dst = Some dst" by (subst clear_players.simps) simp
    then show ?thesis using False 1(3) by auto
  qed
qed


lemma copy_players_char:
  assumes "0 \<le> i" "copied \<le> int (length src)" "copied \<le> int (length dst)"
  shows "\<exists>dst'. copy_players src copied i dst = Some dst' \<and> length dst' = length dst
     \<and> (\<forall>j < length dst. dst' ! j =
            (if i \<le> int j \<and> int j < copied then (src ! j)\<lparr>rp_active := 1\<rparr> else dst ! j))"
  using assms
proof (induction src copied i dst rule: copy_players.induct)
  case (1 src copied i dst)
  let ?d = "dst[nat i := (src ! nat i)\<lparr>rp_active := 1\<rparr>]"
  show ?case
  proof (cases "i < copied")
    case True
    then have r: "arr_read src i = Some (src ! nat i)" using 1(2,3) by (simp add: arr_read_def)
    have w: "arr_write dst i ((src ! nat i)\<lparr>rp_active := 1\<rparr>) = Some ?d"
      using True 1(2,4) by (simp add: arr_write_def)
    from 1(1)[OF True r w] 1(2,3,4)
    obtain dst' where d: "copy_players src copied (i + 1) ?d = Some dst'"
      "length dst' = length dst"
      "\<forall>j < length dst. dst' ! j =
          (if i + 1 \<le> int j \<and> int j < copied then (src ! j)\<lparr>rp_active := 1\<rparr> else ?d ! j)"
      by auto
    have "copy_players src copied i dst = Some dst'"
      using True r w d(1) by (subst copy_players.simps) simp
    moreover have "\<forall>j < length dst. dst' ! j =
        (if i \<le> int j \<and> int j < copied then (src ! j)\<lparr>rp_active := 1\<rparr> else dst ! j)"
    proof (intro allI impI)
      fix j assume j: "j < length dst"
      show "dst' ! j = (if i \<le> int j \<and> int j < copied then (src ! j)\<lparr>rp_active := 1\<rparr> else dst ! j)"
        using d(3)[rule_format, OF j] j 1(2) True
        by (cases "j = nat i") (auto simp: nth_list_update)
    qed
    ultimately show ?thesis using d(2) by blast
  next
    case False
    then have "copy_players src copied i dst = Some dst" by (subst copy_players.simps) simp
    then show ?thesis using False by auto
  qed
qed

text \<open>
  C9. For a count that is not negative, also one above the 4 entries of the table,
  \<open>shared_state_update_players\<close> makes no access outside an array (the caller's array
  holding at least the clamped count of entries): it returns a state whose table has
  its first \<open>min count 4\<close> entries copied from the caller and marked active and all
  others marked inactive and otherwise as they were, and whose stored count is
  \<open>min count 4\<close>, the number a following \<open>shared_state_copy_players\<close> returns.
\<close>

theorem C9_update_players_clamped:
  assumes "0 \<le> n" "length (ss_players state) = MAX_PLAYERS"
    and "min n (int MAX_PLAYERS) \<le> int (length src)"
  shows "\<exists>state'. shared_state_update_players state (Some src) n tick = Some state'
     \<and> length (ss_players state') = MAX_PLAYERS
     \<and> (\<forall>j < MAX_PLAYERS. ss_players state' ! j =
           (if int j < min n (int MAX_PLAYERS) then (src ! j)\<lparr>rp_active := 1\<rparr>
            else (ss_players state ! j)\<lparr>rp_active := 0\<rparr>))
     \<and> (\<forall>j < MAX_PLAYERS. (rp_active (ss_players state' ! j) \<noteq> 0) = (int j < min n (int MAX_PLAYERS)))
     \<and> ss_player_count state' = min n (int MAX_PLAYERS)
     \<and> (\<forall>out. MAX_PLAYERS \<le> length out \<longrightarrow>
           map_option fst (shared_state_copy_players state' (Some out)) = Some (min n (int MAX_PLAYERS)))"
proof -
  let ?c = "min n (int MAX_PLAYERS)"
  have c: "(if n > int MAX_PLAYERS then int MAX_PLAYERS else n) = ?c" by auto
  obtain cleared where cl: "clear_players 0 (ss_players state) = Some cleared"
    "length cleared = MAX_PLAYERS"
    "\<forall>j < MAX_PLAYERS. cleared ! j = (ss_players state ! j)\<lparr>rp_active := 0\<rparr>"
    using clear_players_char[of 0 "ss_players state"] assms(2) by auto
  obtain dst where d: "copy_players src ?c 0 cleared = Some dst" "length dst = MAX_PLAYERS"
    "\<forall>j < MAX_PLAYERS. dst ! j = (if int j < ?c then (src ! j)\<lparr>rp_active := 1\<rparr> else cleared ! j)"
    using copy_players_char[of 0 ?c src cleared] assms(3) cl(2) by auto
  let ?s = "state\<lparr>ss_players := dst, ss_player_count := ?c, ss_server_tick := tick,
      ss_packets_received := ss_packets_received state + 1\<rparr>"
  have u: "shared_state_update_players state (Some src) n tick = Some ?s"
    by (simp add: shared_state_update_players_def cl(1) c d(1) Let_def)
  have p: "\<forall>j < MAX_PLAYERS. dst ! j =
           (if int j < ?c then (src ! j)\<lparr>rp_active := 1\<rparr>
            else (ss_players state ! j)\<lparr>rp_active := 0\<rparr>)"
    using d(3) cl(3) by auto
  have a: "\<forall>j < MAX_PLAYERS. (rp_active (dst ! j) \<noteq> 0) = (int j < ?c)"
    using p by auto
  have o: "\<forall>out. MAX_PLAYERS \<le> length out \<longrightarrow>
           map_option fst (shared_state_copy_players ?s (Some out)) = Some ?c"
    by (simp add: shared_state_copy_players_def d(2))
  show ?thesis
    using u d(2) p a o by (intro exI[of _ ?s]) simp
qed


theorem C9_update_players_clamped_witness:
  "map_option ss_player_count
      (shared_state_update_players initial_shared_state (Some six_remote_players) 6 9) = Some 4
   \<and> map_option (\<lambda>s. map rp_active (ss_players s))
      (shared_state_update_players initial_shared_state (Some six_remote_players) 6 9)
       = Some [1, 1, 1, 1]"
proof -
  have a: "(0::int) \<le> 6" "length (ss_players initial_shared_state) = MAX_PLAYERS"
    "min 6 (int MAX_PLAYERS) \<le> int (length six_remote_players)"
    by (simp_all add: initial_shared_state_def MAX_PLAYERS_def six_remote_players_def)
  from C9_update_players_clamped[OF a, of 9]
  obtain state' where s:
    "shared_state_update_players initial_shared_state (Some six_remote_players) 6 9 = Some state'"
    "length (ss_players state') = MAX_PLAYERS"
    "\<forall>j < MAX_PLAYERS. ss_players state' ! j =
           (if int j < min 6 (int MAX_PLAYERS) then (six_remote_players ! j)\<lparr>rp_active := 1\<rparr>
            else (ss_players initial_shared_state ! j)\<lparr>rp_active := 0\<rparr>)"
    "ss_player_count state' = min 6 (int MAX_PLAYERS)"
    by blast
  have "map rp_active (ss_players state') = [1, 1, 1, 1]"
  proof (rule nth_equalityI)
    show "length (map rp_active (ss_players state')) = length [1, 1, 1, 1 :: int]"
      using s(2) by (simp add: MAX_PLAYERS_def)
  next
    fix i assume "i < length (map rp_active (ss_players state'))"
    then have i: "i < MAX_PLAYERS" using s(2) by simp
    then have "i = 0 \<or> i = 1 \<or> i = 2 \<or> i = 3" by (auto simp: MAX_PLAYERS_def)
    moreover have "rp_active (ss_players state' ! i) = 1"
      using s(3)[rule_format, OF i] i by (simp add: MAX_PLAYERS_def)
    ultimately show "map rp_active (ss_players state') ! i = [1, 1, 1, 1] ! i"
      using i s(2) by auto
  qed
  then show ?thesis using s(1,4) by (simp add: MAX_PLAYERS_def)
qed

section \<open>Sending all bytes\<close>

lemma interrupted_never_returns:
  assumes "net_send_loop tr data len calls total_sent wire = Some y"
  shows "\<not> (tr = interrupted_transport \<and> total_sent < len)"
proof (rule net_send_loop.raw_induct[where
      P = "\<lambda>tr data len calls total_sent wire y. \<not> (tr = interrupted_transport \<and> total_sent < len)",
      OF _ assms])
  fix f :: "transport \<Rightarrow> u8 list \<Rightarrow> int \<Rightarrow> nat \<Rightarrow> int \<Rightarrow> u8 list \<Rightarrow> (int \<times> u8 list) option"
    and tr data len calls total_sent wire y
  assume ih: "\<And>tr data len calls total_sent wire y.
      f tr data len calls total_sent wire = Some y \<Longrightarrow>
      \<not> (tr = interrupted_transport \<and> total_sent < len)"
    and body: "(if total_sent < len then
        (case tr calls (len - total_sent) of
           Sent bytes_sent \<Rightarrow>
             if bytes_sent = 0 then Some (total_sent, wire)
             else f tr data len (Suc calls) (total_sent + int bytes_sent)
                    (wire @ take bytes_sent (drop (nat total_sent) data))
         | Failed er \<Rightarrow>
             if er = EINTR then f tr data len (Suc calls) total_sent wire
             else Some (- 1, wire))
      else Some (total_sent, wire)) = Some y"
  show "\<not> (tr = interrupted_transport \<and> total_sent < len)"
  proof
    assume a: "tr = interrupted_transport \<and> total_sent < len"
    then have "f tr data len (Suc calls) total_sent wire = Some y"
      using body by (simp add: interrupted_transport_def)
    from ih[OF this] a show False by blast
  qed
qed

text \<open>
  C4 as stated fails: against a transport whose every call is interrupted,
  \<open>net_send_all\<close> repeats the call for ever and returns nothing.
\<close>

theorem C4_interrupted_for_ever_counterexample:
  "net_send_all interrupted_transport [1, 2, 3] 3 = None"
proof (cases "net_send_all interrupted_transport [1, 2, 3] 3")
  case None
  then show ?thesis .
next
  case (Some y)
  then show ?thesis
    using interrupted_never_returns[of interrupted_transport "[1, 2, 3]" 3 0 0 "[]" y]
    by (simp add: net_send_all_def)
qed

lemma skip_interrupts:
  assumes "\<forall>m. n \<le> m \<and> m < n + d \<longrightarrow> tr m (len - total_sent) = Failed EINTR"
    and "total_sent < len"
  shows "net_send_loop tr data len n total_sent wire
       = net_send_loop tr data len (n + d) total_sent wire"
  using assms
proof (induction d arbitrary: n)
  case 0
  then show ?case by simp
next
  case (Suc d)
  have "tr n (len - total_sent) = Failed EINTR" using Suc(2) by simp
  then have "net_send_loop tr data len n total_sent wire
      = net_send_loop tr data len (Suc n) total_sent wire"
    using Suc(3) by (subst net_send_loop.simps) simp
  also have "\<dots> = net_send_loop tr data len (Suc n + d) total_sent wire"
    using Suc(2,3) by (intro Suc.IH) auto
  finally show ?case by simp
qed

lemma send_loop_completes:
  assumes wb: "\<forall>n r. 0 < r \<longrightarrow>
      tr n r = Failed EINTR \<or> (\<exists>k. tr n r = Sent k \<and> 0 < k \<and> int k \<le> r)"
    and fair: "\<forall>n r. 0 < r \<longrightarrow> (\<exists>n'\<ge>n. tr n' r \<noteq> Failed EINTR)"
    and "sofar \<le> length data"
  shows "net_send_loop tr data (int (length data)) n (int sofar) (take sofar data)
       = Some (int (length data), data)"
  using assms(3)
proof (induction "length data - sofar" arbitrary: sofar n rule: less_induct)
  case less
  show ?case
  proof (cases "sofar = length data")
    case True
    then show ?thesis by (subst net_send_loop.simps) simp
  next
    case False
    then have lt: "int sofar < int (length data)" using less(2) by simp
    let ?r = "int (length data) - int sofar"
    have rpos: "0 < ?r" using lt by simp
    define P where "P = (\<lambda>n'. n \<le> n' \<and> tr n' ?r \<noteq> Failed EINTR)"
    have "\<exists>n'. P n'" using fair rpos unfolding P_def by blast
    then obtain n' where n': "P n'" "\<forall>m < n'. \<not> P m"
      using exists_least_iff[of P] by blast
    then have ge: "n \<le> n'" and ne: "tr n' ?r \<noteq> Failed EINTR" by (simp_all add: P_def)
    have "\<forall>m. n \<le> m \<and> m < n + (n' - n) \<longrightarrow> tr m ?r = Failed EINTR"
      using n'(2) ge by (auto simp: P_def)
    from skip_interrupts[where tr = tr and n = n and d = "n' - n" and len = "int (length data)"
        and total_sent = "int sofar", OF this lt]
    have sk: "net_send_loop tr data (int (length data)) n (int sofar) (take sofar data)
        = net_send_loop tr data (int (length data)) n' (int sofar) (take sofar data)"
      using ge by simp
    from wb rpos ne obtain k where k: "tr n' ?r = Sent k" "0 < k" "int k \<le> ?r" by blast
    have tk: "take sofar data @ take k (drop sofar data) = take (sofar + k) data"
      by (simp add: take_add)
    have le: "sofar + k \<le> length data" using k(3) by linarith
    have "net_send_loop tr data (int (length data)) n' (int sofar) (take sofar data)
        = net_send_loop tr data (int (length data)) (Suc n') (int (sofar + k)) (take (sofar + k) data)"
      using lt k(1,2) tk by (subst net_send_loop.simps) simp
    also have "\<dots> = Some (int (length data), data)"
      using less(1)[of "sofar + k" "Suc n'"] k(2) le lt by simp
    finally show ?thesis using sk by simp
  qed
qed


text \<open>
  C4, amended. For a payload of \<open>N\<close> bytes and a transport that on every call either
  takes a positive number of the bytes asked for (possibly fewer) or is interrupted, and
  that is not interrupted for ever (after every call some later call is not
  interrupted), \<open>net_send_all\<close> returns \<open>N\<close> and the bytes that went out are the payload,
  in order. The transport that takes 3 bytes a call delivers a 10-byte payload whole.
\<close>

theorem C4_send_all_delivers_everything:
  assumes "\<forall>n r. 0 < r \<longrightarrow>
      tr n r = Failed EINTR \<or> (\<exists>k. tr n r = Sent k \<and> 0 < k \<and> int k \<le> r)"
    and "\<forall>n r. 0 < r \<longrightarrow> (\<exists>n'\<ge>n. tr n' r \<noteq> Failed EINTR)"
  shows "net_send_all tr data (int (length data)) = Some (int (length data), data)"
  using send_loop_completes[OF assms, of 0 data 0] by (simp add: net_send_all_def)

theorem C4_send_all_delivers_everything_witness:
  "net_send_all three_byte_transport [1, 2, 3, 4, 5, 6, 7, 8, 9, 10] 10
     = Some (10, [1, 2, 3, 4, 5, 6, 7, 8, 9, 10])"
proof -
  have a: "\<forall>n r. 0 < r \<longrightarrow> three_byte_transport n r = Failed EINTR
      \<or> (\<exists>k. three_byte_transport n r = Sent k \<and> 0 < k \<and> int k \<le> r)"
    by (auto simp: three_byte_transport_def)
  have b: "\<forall>n r. 0 < r \<longrightarrow> (\<exists>n'\<ge>n. three_byte_transport n' r \<noteq> Failed EINTR)"
    by (auto simp: three_byte_transport_def)
  from C4_send_all_delivers_everything[OF a b, of "[1, 2, 3, 4, 5, 6, 7, 8, 9, 10]"]
  show ?thesis by simp
qed

section \<open>Object representation\<close>

lemma of_le16_le16: "of_le16 (le16 w) = w"
  unfolding of_le16_def le16_def
  by (rule bit_word_eqI) (auto simp: bit_simps)

lemma of_le32_le32: "of_le32 (le32 w) = w"
  unfolding of_le32_def le32_def
proof (rule bit_word_eqI)
  fix n assume "n < LENGTH(32)"
  then have n: "n < 32" by simp
  consider "n < 8" | "8 \<le> n" "n < 16" | "16 \<le> n" "n < 24" | "24 \<le> n" "n < 32"
    using n by linarith
  then show "bit (ucast ([ucast w, ucast (drop_bit 8 w), ucast (drop_bit 16 w),
        ucast (drop_bit 24 w) :: u8] ! 0) OR
      push_bit 8 (ucast ([ucast w, ucast (drop_bit 8 w), ucast (drop_bit 16 w),
        ucast (drop_bit 24 w) :: u8] ! 1)) OR
      push_bit 16 (ucast ([ucast w, ucast (drop_bit 8 w), ucast (drop_bit 16 w),
        ucast (drop_bit 24 w) :: u8] ! 2)) OR
      push_bit 24 (ucast ([ucast w, ucast (drop_bit 8 w), ucast (drop_bit 16 w),
        ucast (drop_bit 24 w) :: u8] ! 3)) :: u32) n = bit w n"
    by cases (auto simp: bit_simps)
qed

lemma load16_store16: "load16 e (store16 e w) = w"
  by (cases e) (simp_all add: load16_def store16_def of_le16_le16)

lemma load32_store32: "load32 e (store32 e w) = w"
  by (cases e) (simp_all add: load32_def store32_def of_le32_le32)

lemma length_store [simp]: "length (store16 e w) = 2" "length (store32 e v) = 4"
  by (cases e; simp add: store16_def store32_def le16_def le32_def)+

lemma length_bytes [simp]:
  "length (MessageHeader_bytes e h) = 3"
  "length (GameStateMsg_bytes e g) = 10"
  "length (PlayerState_bytes e p) = 21"
  "length (BulletState_bytes e b) = 18"
  "length (PlayerInputMsg_bytes e m) = 7"
  "length (PongMsg_bytes e q) = 8"
  "length (ConnectAckMsg_bytes a) = 3"
  "length (ConnectMsg_bytes c) = 17"
  by (simp_all add: MessageHeader_bytes_def GameStateMsg_bytes_def PlayerState_bytes_def
      BulletState_bytes_def PlayerInputMsg_bytes_def PongMsg_bytes_def ConnectAckMsg_bytes_def
      ConnectMsg_bytes_def)

section \<open>The layout of a snapshot\<close>

lemma put_segment:
  assumes "int (length pre) = off" "length old = length bs"
  shows "put off bs (pre @ old @ post) = Some (pre @ bs @ post)"
  using assms by (auto simp: put_def)

lemma count_sync_bullets_eq:
  assumes "c \<le> MAX_SYNC_BULLETS"
  shows "count_sync_bullets bs is c
     = min MAX_SYNC_BULLETS (c + int (length (filter (\<lambda>i. sb_active (bs ! i) \<noteq> 0) is)))"
  using assms
proof (induction "is" arbitrary: c)
  case Nil
  then show ?case by simp
next
  case (Cons i rest)
  show ?case
  proof (cases "c < MAX_SYNC_BULLETS")
    case True
    then show ?thesis using Cons.IH[of "c + 1"] Cons.IH[of c] by auto
  next
    case False
    then have "c = MAX_SYNC_BULLETS" using Cons.prems by simp
    then show ?thesis by simp
  qed
qed

lemma split_at:
  assumes "n \<le> length xs"
  obtains a b where "xs = a @ b" "length a = n"
  using assms by (metis append_take_drop_id length_take min.absorb2)

lemma fill_players_segment:
  assumes "int (length pre) = sizeof_MessageHeader + sizeof_GameStateMsg + idx * sizeof_PlayerState"
    and "length region = 21 * length (filter (\<lambda>i. sp_active (ps ! i) \<noteq> 0) is)"
  shows "fill_players e fb ps is idx (pre @ region @ post)
     = Some (pre @ concat (map (\<lambda>i. PlayerState_bytes e (PlayerState_of fb i (ps ! i)))
                (filter (\<lambda>i. sp_active (ps ! i) \<noteq> 0) is)) @ post)"
  using assms
proof (induction "is" arbitrary: idx pre region)
  case Nil
  then show ?case by simp
next
  case (Cons i rest)
  show ?case
  proof (cases "sp_active (ps ! i) = 0")
    case True
    then show ?thesis using Cons.IH[OF Cons.prems(1)] Cons.prems(2) by simp
  next
    case False
    let ?b = "PlayerState_bytes e (PlayerState_of fb i (ps ! i))"
    have "21 \<le> length region" using Cons.prems(2) False by simp
    then obtain r1 r2 where r: "region = r1 @ r2" "length r1 = 21" by (rule split_at)
    have p: "put (sizeof_MessageHeader + sizeof_GameStateMsg + idx * sizeof_PlayerState) ?b
        (pre @ region @ post) = Some (pre @ ?b @ r2 @ post)"
      using put_segment[OF Cons.prems(1), of r1 ?b "r2 @ post"] r by simp
    have l: "int (length (pre @ ?b))
        = sizeof_MessageHeader + sizeof_GameStateMsg + (idx + 1) * sizeof_PlayerState"
      using Cons.prems(1) by (simp add: sizeof_PlayerState_def algebra_simps)
    have l2: "length r2 = 21 * length (filter (\<lambda>i. sp_active (ps ! i) \<noteq> 0) rest)"
      using Cons.prems(2) False r by simp
    show ?thesis
      using False p Cons.IH[OF l l2] by simp
  qed
qed

lemma fill_bullets_segment:
  assumes "int (length pre) = base + bidx * sizeof_BulletState"
    and "length region = 18 * length (take (nat (bullet_count - bidx))
            (filter (\<lambda>i. sb_active (bs ! i) \<noteq> 0) is))"
  shows "fill_bullets e fb bs is bidx bullet_count base (pre @ region @ post)
     = Some (pre @ concat (map (\<lambda>i. BulletState_bytes e (BulletState_of fb (bs ! i)))
                (take (nat (bullet_count - bidx)) (filter (\<lambda>i. sb_active (bs ! i) \<noteq> 0) is)))
              @ post)"
  using assms
proof (induction "is" arbitrary: bidx pre region)
  case Nil
  then show ?case by simp
next
  case (Cons i rest)
  show ?case
  proof (cases "bidx < bullet_count")
    case lt: True
    show ?thesis
    proof (cases "sb_active (bs ! i) = 0")
      case True
      then show ?thesis using lt Cons.IH[OF Cons.prems(1)] Cons.prems(2) by simp
    next
      case False
      let ?b = "BulletState_bytes e (BulletState_of fb (bs ! i))"
      define k where "k = nat (bullet_count - (bidx + 1))"
      have k: "nat (bullet_count - bidx) = Suc k" "nat (bullet_count - (bidx + 1)) = k"
        using lt by (simp_all add: k_def)
      have "18 \<le> length region" using Cons.prems(2) False k by simp
      then obtain r1 r2 where r: "region = r1 @ r2" "length r1 = 18" by (rule split_at)
      have p: "put (base + bidx * sizeof_BulletState) ?b (pre @ region @ post)
          = Some (pre @ ?b @ r2 @ post)"
        using put_segment[OF Cons.prems(1), of r1 ?b "r2 @ post"] r by simp
      have l: "int (length (pre @ ?b)) = base + (bidx + 1) * sizeof_BulletState"
        using Cons.prems(1) by (simp add: sizeof_BulletState_def algebra_simps)
      have l2: "length r2 = 18 * length (take (nat (bullet_count - (bidx + 1)))
            (filter (\<lambda>i. sb_active (bs ! i) \<noteq> 0) rest))"
        using Cons.prems(2) False r k by simp
      show ?thesis
        using False lt p Cons.IH[OF l l2] k by simp
    qed
  next
    case False
    then have "nat (bullet_count - bidx) = 0" by simp
    then show ?thesis using False Cons.prems(2) by simp
  qed
qed


lemma length_concat_const:
  assumes "\<And>x. length (f x) = n"
  shows "length (concat (map f xs)) = n * length xs"
  by (induction xs) (simp_all add: assms)

lemma build_state_layout:
  assumes "wf_server server" "players_counted server"
  shows "build_state e fb fresh server
     = Some (MessageHeader_bytes e (snapshot_header fb server) @ snapshot_payload e fb server)"
proof -
  let ?ap = "filter (\<lambda>i. sp_active (sv_players server ! i) \<noteq> 0) [0..<MAX_PLAYERS]"
  let ?ab = "filter (\<lambda>i. sb_active (sv_bullets server ! i) \<noteq> 0) [0..<MAX_SERVER_BULLETS]"
  let ?p = "length ?ap"
  let ?sb = "take (nat MAX_SYNC_BULLETS) ?ab"
  let ?b = "length ?sb"
  have bc: "count_sync_bullets (sv_bullets server) [0..<MAX_SERVER_BULLETS] 0 = int ?b"
    using count_sync_bullets_eq[of 0 "sv_bullets server" "[0..<MAX_SERVER_BULLETS]"]
    by (simp add: MAX_SYNC_BULLETS_def min_def)
  have pc: "sv_player_count server = int ?p"
    using assms(2) by (simp add: players_counted_def active_players_def)
  let ?total = "sizeof_MessageHeader + (sizeof_GameStateMsg + int ?p * sizeof_PlayerState
      + int ?b * sizeof_BulletState)"
  let ?buf = "map fresh [0..<nat ?total]"
  define buf where "buf = ?buf"
  define np where "np = ?p"
  define nb where "nb = ?b"
  have len: "length buf = 3 + (10 + (21 * np + 18 * nb))"
    by (simp add: buf_def np_def nb_def sizeof_MessageHeader_def sizeof_GameStateMsg_def
        sizeof_PlayerState_def sizeof_BulletState_def nat_add_distrib nat_mult_distrib)
  have "3 \<le> length buf" using len by simp
  then obtain h0 r0 where h0: "buf = h0 @ r0" "length h0 = 3" by (rule split_at)
  have "10 \<le> length r0" using len h0 by simp
  then obtain s0 r1 where s0: "r0 = s0 @ r1" "length s0 = 10" by (rule split_at)
  have "21 * np \<le> length r1" using len h0 s0 by simp
  then obtain p0 b0 where p0': "r1 = p0 @ b0" "length p0 = 21 * np" by (rule split_at)
  have b0': "length b0 = 18 * nb" using len h0 s0 p0' by simp
  note h0 = h0[unfolded buf_def]
  note p0 = p0'[unfolded np_def]
  note b0 = b0'[unfolded nb_def]
  let ?hdr = "MessageHeader_bytes e (snapshot_header fb server)"
  let ?st = "GameStateMsg_bytes e (snapshot_fixed fb server)"
  let ?P = "concat (map (\<lambda>i. PlayerState_bytes e (PlayerState_of fb i (sv_players server ! i))) ?ap)"
  let ?B = "concat (map (\<lambda>i. BulletState_bytes e (BulletState_of fb (sv_bullets server ! i))) ?sb)"
  have hdr: "snapshot_header fb server = \<lparr>h_type = MSG_GAME_STATE,
      h_length = word_of_int (sizeof_GameStateMsg + int ?p * sizeof_PlayerState
        + int ?b * sizeof_BulletState)\<rparr>"
    by (simp add: snapshot_header_def snapshot_players_def snapshot_bullets_def
        active_players_def active_bullets_def synced_bullets_def)
  have st: "snapshot_fixed fb server = \<lparr>gm_tick = sv_tick server, gm_your_sequence = 0,
      gm_player_count = word_of_int (int ?p), gm_bullet_count = word_of_int (int ?b)\<rparr>"
    by (simp add: snapshot_fixed_def snapshot_players_def snapshot_bullets_def
        active_players_def active_bullets_def synced_bullets_def)
  have 1: "put 0 ?hdr ?buf = Some (?hdr @ r0)"
    using put_segment[of "[]" 0 h0 ?hdr r0] h0 by simp
  have 2: "put sizeof_MessageHeader ?st (?hdr @ r0) = Some (?hdr @ ?st @ r1)"
    using put_segment[of ?hdr sizeof_MessageHeader s0 ?st r1] s0
    by (simp add: sizeof_MessageHeader_def)
  have 3: "fill_players e fb (sv_players server) [0..<MAX_PLAYERS] 0 (?hdr @ ?st @ r1)
      = Some ((?hdr @ ?st) @ ?P @ b0)"
    using fill_players_segment[of "?hdr @ ?st" 0 p0 "sv_players server" "[0..<MAX_PLAYERS]" e fb b0]
      p0 by (simp add: sizeof_MessageHeader_def sizeof_GameStateMsg_def)
  have 4: "fill_bullets e fb (sv_bullets server) [0..<MAX_SERVER_BULLETS] 0 (int ?b)
      (sizeof_MessageHeader + sizeof_GameStateMsg + int ?p * sizeof_PlayerState)
      ((?hdr @ ?st @ ?P) @ b0 @ []) = Some ((?hdr @ ?st @ ?P) @ ?B @ [])"
  proof -
    have l: "int (length (?hdr @ ?st @ ?P)) = (sizeof_MessageHeader + sizeof_GameStateMsg
        + int ?p * sizeof_PlayerState) + 0 * sizeof_BulletState"
      by (simp add: length_concat_const[where n = 21] sizeof_MessageHeader_def
          sizeof_GameStateMsg_def sizeof_PlayerState_def)
    have t: "take (nat (int ?b - 0)) ?ab = ?sb"
      by (simp add: min_def)
    have r: "length b0 = 18 * length (take (nat (int ?b - 0)) ?ab)"
      using b0 by (simp only: t)
    from fill_bullets_segment[OF l r, of e fb "[]"] show ?thesis
      by (simp only: t)
  qed
  have P: "?P = concat (map (PlayerState_bytes e) (snapshot_players fb server))"
    by (simp add: snapshot_players_def active_players_def comp_def)
  have B: "?B = concat (map (BulletState_bytes e) (snapshot_bullets fb server))"
    by (simp add: snapshot_bullets_def active_bullets_def synced_bullets_def comp_def)
  show ?thesis
    unfolding build_state_def Let_def bc pc
    using 1 2 3 4 unfolding hdr[symmetric] st[symmetric]
    by (simp add: snapshot_payload_def P B)
qed

section \<open>The broadcast loop\<close>

lemma with_sequence_idem:
  assumes "11 \<le> length buf"
  shows "with_sequence e (with_sequence e buf m) n = with_sequence e buf n"
  using assms by (simp add: with_sequence_def)

lemma length_with_sequence:
  assumes "11 \<le> length buf"
  shows "length (with_sequence e buf n) = length buf"
  using assms by (simp add: with_sequence_def)

lemma put_sequence:
  assumes "11 \<le> length buf"
  shows "put (sizeof_MessageHeader + 4) (store32 e n) buf = Some (with_sequence e buf n)"
  using assms by (simp add: put_def with_sequence_def sizeof_MessageHeader_def)

lemma failed_sends_update:
  assumes "i \<notin> set slots"
  shows "failed_sends sent (ps[i := p]) slots = failed_sends sent ps slots"
proof -
  have "\<And>j. j \<in> set slots \<Longrightarrow> ps[i := p] ! j = ps ! j"
    using assms by (metis nth_list_update_neq)
  then show ?thesis
    unfolding failed_sends_def by (intro filter_cong) simp_all
qed

lemma broadcast_events_update:
  assumes "i \<notin> set slots" "11 \<le> length buf"
  shows "broadcast_events e sent (with_sequence e buf m) (ps[i := p]) slots
       = broadcast_events e sent buf ps slots"
proof -
  have "\<And>j. j \<in> set slots \<Longrightarrow> ps[i := p] ! j = ps ! j"
    using assms(1) by (metis nth_list_update_neq)
  then show ?thesis
    unfolding broadcast_events_def
    by (intro arg_cong[where f = concat] map_cong) (simp_all add: with_sequence_idem[OF assms(2)])
qed

lemma broadcast_events_buf:
  assumes "11 \<le> length buf"
  shows "broadcast_events e sent (with_sequence e buf m) ps slots
       = broadcast_events e sent buf ps slots"
  unfolding broadcast_events_def
  by (intro arg_cong[where f = concat] map_cong) (simp_all add: with_sequence_idem[OF assms])

lemma send_to_players_eq:
  assumes "distinct slots" "11 \<le> length buf"
  shows "send_to_players e sent slots buf server =
     Some (server\<lparr>sv_players := fold deactivate (failed_sends sent (sv_players server) slots)
                                   (sv_players server),
                  sv_player_count := sv_player_count server
                     - int (length (failed_sends sent (sv_players server) slots))\<rparr>,
           broadcast_events e sent buf (sv_players server) slots)"
  using assms
proof (induction slots arbitrary: buf server)
  case Nil
  then show ?case by (simp add: failed_sends_def broadcast_events_def)
next
  case (Cons i rest)
  let ?ps = "sv_players server"
  let ?p = "?ps ! i"
  have d: "distinct rest" "i \<notin> set rest" using Cons.prems(1) by auto
  show ?case
  proof (cases "sp_active ?p = 0")
    case True
    then show ?thesis
      using Cons.IH[OF d(1) Cons.prems(2), of server]
      by (simp add: failed_sends_def broadcast_events_def)
  next
    case False
    let ?buf = "with_sequence e buf (sp_last_sequence ?p)"
    have lb: "11 \<le> length ?buf" using Cons.prems(2) by (simp add: length_with_sequence)
    show ?thesis
    proof (cases "sent i < 0")
      case True
      let ?s1 = "server\<lparr>sv_players := ?ps[i := ?p\<lparr>sp_active := 0\<rparr>],
                         sv_player_count := sv_player_count server - 1\<rparr>"
      have f: "failed_sends sent (sv_players ?s1) rest = failed_sends sent ?ps rest"
        using failed_sends_update[OF d(2)] by simp
      have b: "broadcast_events e sent ?buf (sv_players ?s1) rest
          = broadcast_events e sent buf ?ps rest"
        using broadcast_events_update[OF d(2) Cons.prems(2)] by simp
      have f0: "failed_sends sent ?ps (i # rest) = i # failed_sends sent ?ps rest"
        using False True by (simp add: failed_sends_def)
      have b0: "broadcast_events e sent buf ?ps (i # rest)
          = [Send (sp_socket ?p) ?buf] @ net_close (sp_socket ?p)
            @ broadcast_events e sent buf ?ps rest"
        using False True by (simp add: broadcast_events_def)
      have fd: "fold deactivate (i # failed_sends sent ?ps rest) ?ps
          = fold deactivate (failed_sends sent ?ps rest) (?ps[i := ?p\<lparr>sp_active := 0\<rparr>])"
        by (simp only: fold_simps deactivate_def[of i ?ps])
      have ih: "send_to_players e sent rest ?buf ?s1 =
          Some (server\<lparr>sv_players := fold deactivate (failed_sends sent ?ps (i # rest)) ?ps,
                  sv_player_count := sv_player_count server
                     - int (length (failed_sends sent ?ps (i # rest)))\<rparr>,
                broadcast_events e sent buf ?ps rest)"
        using Cons.IH[OF d(1) lb, of ?s1] unfolding f b f0 fd
        by (simp add: algebra_simps)
      show ?thesis
        using False True put_sequence[OF Cons.prems(2), of e "sp_last_sequence ?p"]
        by (simp add: Let_def ih b0 del: fold_simps)
    next
      case nf: False
      have f0: "failed_sends sent ?ps (i # rest) = failed_sends sent ?ps rest"
        using nf by (simp add: failed_sends_def)
      have b0: "broadcast_events e sent buf ?ps (i # rest)
          = [Send (sp_socket ?p) ?buf] @ broadcast_events e sent buf ?ps rest"
        using False nf by (simp add: broadcast_events_def)
      have ih: "send_to_players e sent rest ?buf server =
          Some (server\<lparr>sv_players := fold deactivate (failed_sends sent ?ps (i # rest)) ?ps,
                  sv_player_count := sv_player_count server
                     - int (length (failed_sends sent ?ps (i # rest)))\<rparr>,
                broadcast_events e sent buf ?ps rest)"
        using Cons.IH[OF d(1) lb, of server]
        unfolding f0 broadcast_events_buf[OF Cons.prems(2)] .
      show ?thesis
        using False nf put_sequence[OF Cons.prems(2), of e "sp_last_sequence ?p"]
        by (simp add: Let_def ih b0 del: fold_simps)
    qed
  qed
qed

lemma deactivate_length [simp]: "length (deactivate i ps) = length ps"
  by (simp add: deactivate_def)

lemma deactivate_nth:
  "j < length ps \<Longrightarrow> deactivate i ps ! j = (if j = i then (ps ! j)\<lparr>sp_active := 0\<rparr> else ps ! j)"
  by (simp add: deactivate_def nth_list_update)

lemma fold_deactivate_length [simp]: "length (fold deactivate js ps) = length ps"
  by (induction js arbitrary: ps) simp_all

lemma fold_deactivate_nth:
  assumes "j < length ps"
  shows "fold deactivate js ps ! j = (if j \<in> set js then (ps ! j)\<lparr>sp_active := 0\<rparr> else ps ! j)"
  using assms
proof (induction js arbitrary: ps)
  case Nil
  then show ?case by simp
next
  case (Cons a js)
  have "fold deactivate (a # js) ps ! j = fold deactivate js (deactivate a ps) ! j" by simp
  also have "\<dots> = (if j \<in> set js then (deactivate a ps ! j)\<lparr>sp_active := 0\<rparr> else deactivate a ps ! j)"
    using Cons.IH[of "deactivate a ps"] Cons.prems by simp
  finally show ?case using Cons.prems
    by (cases "j = a") (auto simp: deactivate_nth)
qed

lemma length_active_players: "length (active_players server) \<le> 4"
proof -
  have "length (active_players server) \<le> length [0..<MAX_PLAYERS]"
    unfolding active_players_def by (rule length_filter_le)
  then show ?thesis by (simp add: MAX_PLAYERS_def)
qed

lemma length_synced_bullets: "length (synced_bullets server) \<le> 50"
  by (simp add: synced_bullets_def MAX_SYNC_BULLETS_def)

lemma length_snapshot [simp]:
  "length (snapshot_players fb server) = length (active_players server)"
  "length (snapshot_bullets fb server) = length (synced_bullets server)"
  by (simp_all add: snapshot_players_def snapshot_bullets_def)

lemma snapshot_size:
  "int (length (snapshot_payload e fb server)) =
     sizeof_GameStateMsg + int (length (snapshot_players fb server)) * sizeof_PlayerState
       + int (length (snapshot_bullets fb server)) * sizeof_BulletState"
  by (simp add: snapshot_payload_def length_concat_const[where n = 21]
      length_concat_const[where n = 18] sizeof_GameStateMsg_def sizeof_PlayerState_def
      sizeof_BulletState_def)

lemma snapshot_length_field:
  "uint (h_length (snapshot_header fb server)) =
     sizeof_GameStateMsg + int (length (snapshot_players fb server)) * sizeof_PlayerState
       + int (length (snapshot_bullets fb server)) * sizeof_BulletState"
proof -
  let ?L = "sizeof_GameStateMsg + int (length (snapshot_players fb server)) * sizeof_PlayerState
       + int (length (snapshot_bullets fb server)) * sizeof_BulletState"
  have "0 \<le> ?L" "?L < 2 ^ 16"
    using length_active_players[of server] length_synced_bullets[of server]
    by (simp_all add: sizeof_GameStateMsg_def sizeof_PlayerState_def sizeof_BulletState_def)
  have "uint (word_of_int ?L :: u16) = ?L mod 2 ^ LENGTH(16)"
    by (rule uint_word_of_int)
  also have "\<dots> = ?L"
    using \<open>0 \<le> ?L\<close> \<open>?L < 2 ^ 16\<close> by simp
  finally show ?thesis by (simp only: snapshot_header_def MessageHeader.simps)
qed

lemma well_framed_msg:
  assumes "unat (h_length h) = length payload"
  shows "well_framed e (MessageHeader_bytes e h @ payload)"
  using assms by (simp add: well_framed_def MessageHeader_bytes_def load16_store16)

lemma well_framed_with_sequence:
  assumes "well_framed e buf" "11 \<le> length buf"
  shows "well_framed e (with_sequence e buf n)"
  using assms by (simp add: well_framed_def with_sequence_def drop_take)

lemma well_framed_snapshot:
  "well_framed e (MessageHeader_bytes e (snapshot_header fb server) @ snapshot_payload e fb server)"
proof (rule well_framed_msg)
  have "int (unat (h_length (snapshot_header fb server))) = int (length (snapshot_payload e fb server))"
    using snapshot_length_field[of fb server] snapshot_size[of e fb server] by simp
  then show "unat (h_length (snapshot_header fb server)) = length (snapshot_payload e fb server)"
    by linarith
qed

lemma snapshot_long: "11 \<le> length (MessageHeader_bytes e h @ snapshot_payload e fb server)"
  by (simp add: snapshot_payload_def)

lemma server_send_state_eq:
  assumes "wf_server server" "players_counted server"
  shows "server_send_state e fb (Some fresh) sent server =
     Some (server\<lparr>sv_players := fold deactivate
                      (failed_sends sent (sv_players server) [0..<MAX_PLAYERS]) (sv_players server),
                  sv_player_count := sv_player_count server
                     - int (length (failed_sends sent (sv_players server) [0..<MAX_PLAYERS]))\<rparr>,
           broadcast_events e sent
             (MessageHeader_bytes e (snapshot_header fb server) @ snapshot_payload e fb server)
             (sv_players server) [0..<MAX_PLAYERS])"
  using build_state_layout[OF assms, of e fb fresh]
    send_to_players_eq[OF distinct_upt snapshot_long, where e = e and sent = sent
      and server = server]
  by (simp add: server_send_state_def)

lemma broadcast_event_cases:
  assumes "ev \<in> set (broadcast_events e sent buf ps slots)"
  obtains i where "i \<in> set slots" "sp_active (ps ! i) \<noteq> 0"
    "ev = Send (sp_socket (ps ! i)) (with_sequence e buf (sp_last_sequence (ps ! i)))
     \<or> (sent i < 0 \<and> ev \<in> set (net_close (sp_socket (ps ! i))))"
  using assms unfolding broadcast_events_def
  by (auto split: if_splits)

lemma broadcast_sends_all:
  assumes "i \<in> set slots" "sp_active (ps ! i) \<noteq> 0"
  shows "Send (sp_socket (ps ! i)) (with_sequence e buf (sp_last_sequence (ps ! i)))
      \<in> set (broadcast_events e sent buf ps slots)"
  using assms unfolding broadcast_events_def by auto

section \<open>Counting the active slots\<close>

lemma filter_nth_upt:
  "filter P xs = map (nth xs) (filter (\<lambda>i. P (xs ! i)) [0..<length xs])"
proof -
  have "filter P xs = filter P (map (nth xs) [0..<length xs])" by (simp add: map_nth)
  also have "\<dots> = map (nth xs) (filter (P \<circ> nth xs) [0..<length xs])" by (rule filter_map)
  finally show ?thesis by (simp add: comp_def)
qed

lemma length_filter_nth_upt:
  "length (filter (\<lambda>i. P (xs ! i)) [0..<length xs]) = length (filter P xs)"
  by (subst (2) filter_nth_upt) simp

lemma filter_update_count:
  assumes "i < length xs"
  shows "int (length (filter P (xs[i := v]))) =
     int (length (filter P xs)) + (if P v then 1 else 0) - (if P (xs ! i) then 1 else 0)"
proof -
  have a: "xs[i := v] = take i xs @ v # drop (Suc i) xs"
    using assms by (rule upd_conv_take_nth_drop)
  have b: "xs = take i xs @ xs ! i # drop (Suc i) xs"
    using assms by (rule id_take_nth_drop)
  have "length (filter P xs) = length (filter P (take i xs @ xs ! i # drop (Suc i) xs))"
    using b by simp
  then show ?thesis unfolding a by simp
qed

lemma active_players_count:
  assumes "length ps = MAX_PLAYERS"
  shows "length (filter (\<lambda>i. sp_active (ps ! i) \<noteq> 0) [0..<MAX_PLAYERS])
       = length (filter (\<lambda>p. sp_active p \<noteq> 0) ps)"
  using length_filter_nth_upt[of "\<lambda>p. sp_active p \<noteq> 0" ps] assms by simp

lemma active_bullets_count:
  assumes "length bs = MAX_SERVER_BULLETS"
  shows "length (filter (\<lambda>i. sb_active (bs ! i) \<noteq> 0) [0..<MAX_SERVER_BULLETS])
       = length (filter (\<lambda>b. sb_active b \<noteq> 0) bs)"
  using length_filter_nth_upt[of "\<lambda>b. sb_active b \<noteq> 0" bs] assms by simp

lemma players_counted_iff:
  assumes "wf_server server"
  shows "players_counted server
     = (sv_player_count server = int (length (filter (\<lambda>p. sp_active p \<noteq> 0) (sv_players server))))"
  using assms active_players_count[of "sv_players server"]
  by (simp add: players_counted_def active_players_def wf_server_def)

lemma bullets_counted_iff:
  assumes "wf_server server"
  shows "bullets_counted server
     = (sv_bullet_count server = int (length (filter (\<lambda>b. sb_active b \<noteq> 0) (sv_bullets server))))"
  using assms active_bullets_count[of "sv_bullets server"]
  by (simp add: bullets_counted_def active_bullets_def wf_server_def)

lemma fold_deactivate_count:
  assumes "distinct js" "\<forall>j \<in> set js. j < length ps \<and> sp_active (ps ! j) \<noteq> 0"
  shows "int (length (filter (\<lambda>p. sp_active p \<noteq> 0) (fold deactivate js ps)))
       = int (length (filter (\<lambda>p. sp_active p \<noteq> 0) ps)) - int (length js)"
  using assms
proof (induction js arbitrary: ps)
  case Nil
  then show ?case by simp
next
  case (Cons a js)
  have a: "a < length ps" "sp_active (ps ! a) \<noteq> 0" using Cons.prems(2) by auto
  have d: "distinct js" "a \<notin> set js" using Cons.prems(1) by auto
  have "\<forall>j \<in> set js. j < length (deactivate a ps) \<and> sp_active (deactivate a ps ! j) \<noteq> 0"
    using Cons.prems(2) d(2) by (auto simp: deactivate_nth)
  from Cons.IH[OF d(1) this]
  have "int (length (filter (\<lambda>p. sp_active p \<noteq> 0) (fold deactivate (a # js) ps)))
      = int (length (filter (\<lambda>p. sp_active p \<noteq> 0) (deactivate a ps))) - int (length js)"
    by simp
  also have "int (length (filter (\<lambda>p. sp_active p \<noteq> 0) (deactivate a ps)))
      = int (length (filter (\<lambda>p. sp_active p \<noteq> 0) ps)) - 1"
    using filter_update_count[OF a(1), of "\<lambda>p. sp_active p \<noteq> 0" "(ps ! a)\<lparr>sp_active := 0\<rparr>"] a(2)
    by (simp add: deactivate_def)
  finally show ?case by simp
qed

lemma failed_sends_props:
  "distinct (failed_sends sent ps [0..<n])"
  "j \<in> set (failed_sends sent ps [0..<n]) \<longleftrightarrow> j < n \<and> sp_active (ps ! j) \<noteq> 0 \<and> sent j < 0"
  by (auto simp: failed_sends_def)

lemma send_state_preserves:
  assumes "wf_server server" "players_counted server"
    and "server_send_state e fb mem sent server = Some (server', evs)"
  shows "wf_server server' \<and> players_counted server'
     \<and> sv_bullets server' = sv_bullets server \<and> sv_bullet_count server' = sv_bullet_count server"
proof (cases mem)
  case None
  then show ?thesis using assms by (simp add: server_send_state_def)
next
  case (Some fresh)
  let ?f = "failed_sends sent (sv_players server) [0..<MAX_PLAYERS]"
  have s: "server' = server\<lparr>sv_players := fold deactivate ?f (sv_players server),
                  sv_player_count := sv_player_count server - int (length ?f)\<rparr>"
    using assms(3) server_send_state_eq[OF assms(1,2), of e fb fresh sent] Some by simp
  have wf: "wf_server server'" using assms(1) by (simp add: s wf_server_def)
  have "\<forall>j \<in> set ?f. j < length (sv_players server) \<and> sp_active (sv_players server ! j) \<noteq> 0"
    using assms(1) by (simp add: failed_sends_props wf_server_def)
  from fold_deactivate_count[OF failed_sends_props(1) this]
  have "players_counted server'"
    using assms(2) unfolding players_counted_iff[OF wf] players_counted_iff[OF assms(1)]
    by (simp add: s)
  then show ?thesis using wf by (simp add: s)
qed

section \<open>The scenarios\<close>

lemma upt_4: "[0..<MAX_PLAYERS] = [0, 1, 2, 3]"
  by (simp add: MAX_PLAYERS_def upt_rec)

lemma active_bullets_none:
  assumes "sv_bullets server = replicate 200 zeroed_bullet"
  shows "active_bullets server = []"
  using assms by (simp add: active_bullets_def filter_empty_conv MAX_SERVER_BULLETS_def zeroed_bullet_def)

lemma one_client_facts:
  "wf_server one_client_server" "players_counted one_client_server"
  "active_players one_client_server = [0]" "active_bullets one_client_server = []"
  "bullets_counted one_client_server"
proof -
  show a: "active_players one_client_server = [0]"
    by (simp add: active_players_def upt_4 one_client_server_def zeroed_player_def)
  show b: "active_bullets one_client_server = []"
    by (rule active_bullets_none) (simp add: one_client_server_def)
  show "wf_server one_client_server"
    by (simp add: wf_server_def one_client_server_def MAX_PLAYERS_def MAX_SERVER_BULLETS_def)
  show "players_counted one_client_server"
    by (simp add: players_counted_def a) (simp add: one_client_server_def)
  show "bullets_counted one_client_server"
    by (simp add: bullets_counted_def b) (simp add: one_client_server_def)
qed

lemma two_client_facts:
  "wf_server two_client_server" "players_counted two_client_server"
  "active_players two_client_server = [0, 1]" "active_bullets two_client_server = []"
proof -
  show a: "active_players two_client_server = [0, 1]"
    by (simp add: active_players_def upt_4 two_client_server_def zeroed_player_def)
  show b: "active_bullets two_client_server = []"
    by (rule active_bullets_none) (simp add: two_client_server_def)
  show "wf_server two_client_server"
    by (simp add: wf_server_def two_client_server_def MAX_PLAYERS_def MAX_SERVER_BULLETS_def)
  show "players_counted two_client_server"
    by (simp add: players_counted_def a) (simp add: two_client_server_def)
qed

section \<open>Framing\<close>

lemma sent_bytes_simps [simp]:
  "sent_bytes [] = []"
  "sent_bytes (Send s b # evs) = b @ sent_bytes evs"
  "sent_bytes (Close s # evs) = sent_bytes evs"
  "sent_bytes (evs @ evs') = sent_bytes evs @ sent_bytes evs'"
  by (simp_all add: sent_bytes_def)

lemma sent_bytes_net_close [simp]: "sent_bytes (net_close s) = []"
  by (simp add: net_close_def)

lemma unat_word_of_int_small:
  "unat (word_of_int sizeof_PlayerInputMsg :: u16) = 7"
  "unat (word_of_int sizeof_ConnectMsg :: u16) = 17"
  "unat (word_of_int sizeof_ConnectAckMsg :: u16) = 3"
  "unat (word_of_int sizeof_PongMsg :: u16) = 8"
  by (simp_all add: sizeof_PlayerInputMsg_def sizeof_ConnectMsg_def sizeof_ConnectAckMsg_def
      sizeof_PongMsg_def)

lemma framed_input: "well_framed e (sent_bytes (snd (thread_send_input e client)))"
  by (simp add: thread_send_input_def shared_state_get_input_def Let_def well_framed_msg
      unat_word_of_int_small)

lemma framed_connect: "well_framed e (sent_bytes (connect_request e socket))"
  by (simp add: connect_request_def Let_def well_framed_msg unat_word_of_int_small)

lemma framed_reject: "well_framed e (sent_bytes (reject e socket why))"
  by (simp add: reject_def Let_def well_framed_msg unat_word_of_int_small)

lemma framed_accept:
  "sent_bytes (snd (server_accept_new_client e io server)) = []
   \<or> well_framed e (sent_bytes (snd (server_accept_new_client e io server)))"
  by (simp add: server_accept_new_client_def Let_def framed_reject well_framed_msg
      unat_word_of_int_small)

lemma framed_handle:
  "sent_bytes (snd (server_handle_client_message e io server player_id)) = []
   \<or> well_framed e (sent_bytes (snd (server_handle_client_message e io server player_id)))"
  by (simp add: server_handle_client_message_def disconnect_player_def Let_def well_framed_msg
      unat_word_of_int_small)

text \<open>
  C3. Every message is a 3-byte header and a payload whose size is the header's length
  field: the input and the connect request of the client, the acknowledgement and the
  pong of the server, and the snapshot. The snapshot that \<open>server_send_state\<close> builds
  for a server whose player count is its number of active slots has a payload of the
  fixed part, one \<open>PlayerState\<close> for each of its \<open>p\<close> player records and one
  \<open>BulletState\<close> for each of its \<open>b\<close> bullet records, back to back, and its length field
  is \<open>sizeof(GameStateMsg) + p * sizeof(PlayerState) + b * sizeof(BulletState)\<close>; the
  copy sent to each client has the same header and the same size.
\<close>

theorem C3_header_length_is_payload_size:
  assumes "wf_server server" "players_counted server"
  shows "(\<exists>buffer. build_state e fb fresh server = Some buffer
          \<and> take 3 buffer = MessageHeader_bytes e (snapshot_header fb server)
          \<and> drop 3 buffer = GameStateMsg_bytes e (snapshot_fixed fb server)
               @ concat (map (PlayerState_bytes e) (snapshot_players fb server))
               @ concat (map (BulletState_bytes e) (snapshot_bullets fb server))
          \<and> uint (h_length (snapshot_header fb server)) = int (length (drop 3 buffer))
          \<and> uint (h_length (snapshot_header fb server)) =
               sizeof_GameStateMsg
                 + int (length (snapshot_players fb server)) * sizeof_PlayerState
                 + int (length (snapshot_bullets fb server)) * sizeof_BulletState
          \<and> unat (gm_player_count (snapshot_fixed fb server)) = length (snapshot_players fb server)
          \<and> unat (gm_bullet_count (snapshot_fixed fb server)) = length (snapshot_bullets fb server)
          \<and> (\<forall>server' evs s b.
                server_send_state e fb (Some fresh) sent server = Some (server', evs)
                \<and> Send s b \<in> set evs
                \<longrightarrow> well_framed e b \<and> length b = length buffer \<and> take 3 b = take 3 buffer))
     \<and> well_framed e (sent_bytes (snd (thread_send_input e client)))
     \<and> well_framed e (sent_bytes (connect_request e socket))
     \<and> (sent_bytes (snd (server_accept_new_client e aio server2)) = []
         \<or> well_framed e (sent_bytes (snd (server_accept_new_client e aio server2))))
     \<and> (sent_bytes (snd (server_handle_client_message e cio server3 player_id)) = []
         \<or> well_framed e (sent_bytes (snd (server_handle_client_message e cio server3 player_id))))"
proof -
  let ?hdr = "MessageHeader_bytes e (snapshot_header fb server)"
  let ?buf = "?hdr @ snapshot_payload e fb server"
  have b: "build_state e fb fresh server = Some ?buf"
    by (rule build_state_layout[OF assms])
  have t: "take 3 ?buf = ?hdr" "drop 3 ?buf = snapshot_payload e fb server" by simp_all
  have d: "drop 3 ?buf = GameStateMsg_bytes e (snapshot_fixed fb server)
               @ concat (map (PlayerState_bytes e) (snapshot_players fb server))
               @ concat (map (BulletState_bytes e) (snapshot_bullets fb server))"
    by (simp add: snapshot_payload_def)
  have l: "uint (h_length (snapshot_header fb server)) = int (length (drop 3 ?buf))"
    using snapshot_length_field[of fb server] snapshot_size[of e fb server] by (simp only: t)
  have pc: "unat (gm_player_count (snapshot_fixed fb server)) = length (snapshot_players fb server)"
    using length_active_players[of server]
    by (simp add: snapshot_fixed_def unat_of_nat)
  have bc: "unat (gm_bullet_count (snapshot_fixed fb server)) = length (snapshot_bullets fb server)"
    using length_synced_bullets[of server]
    by (simp add: snapshot_fixed_def unat_of_nat)
  have ev: "\<forall>server' evs s b.
      server_send_state e fb (Some fresh) sent server = Some (server', evs) \<and> Send s b \<in> set evs
      \<longrightarrow> well_framed e b \<and> length b = length ?buf \<and> take 3 b = take 3 ?buf"
  proof (intro allI impI)
    fix server' evs s b
    assume h: "server_send_state e fb (Some fresh) sent server = Some (server', evs)
        \<and> Send s b \<in> set evs"
    then have "Send s b \<in> set (broadcast_events e sent ?buf (sv_players server) [0..<MAX_PLAYERS])"
      using server_send_state_eq[OF assms, of e fb fresh sent] by simp
    then obtain n where "b = with_sequence e ?buf n"
      by (rule broadcast_event_cases) (auto simp: net_close_def split: if_splits)
    then show "well_framed e b \<and> length b = length ?buf \<and> take 3 b = take 3 ?buf"
      using well_framed_with_sequence[OF well_framed_snapshot snapshot_long, where n = n]
        length_with_sequence[OF snapshot_long, where n = n]
      by (simp add: with_sequence_def)
  qed
  have "\<exists>buffer. build_state e fb fresh server = Some buffer
          \<and> take 3 buffer = MessageHeader_bytes e (snapshot_header fb server)
          \<and> drop 3 buffer = GameStateMsg_bytes e (snapshot_fixed fb server)
               @ concat (map (PlayerState_bytes e) (snapshot_players fb server))
               @ concat (map (BulletState_bytes e) (snapshot_bullets fb server))
          \<and> uint (h_length (snapshot_header fb server)) = int (length (drop 3 buffer))
          \<and> uint (h_length (snapshot_header fb server)) =
               sizeof_GameStateMsg
                 + int (length (snapshot_players fb server)) * sizeof_PlayerState
                 + int (length (snapshot_bullets fb server)) * sizeof_BulletState
          \<and> unat (gm_player_count (snapshot_fixed fb server)) = length (snapshot_players fb server)
          \<and> unat (gm_bullet_count (snapshot_fixed fb server)) = length (snapshot_bullets fb server)
          \<and> (\<forall>server' evs s b.
                server_send_state e fb (Some fresh) sent server = Some (server', evs)
                \<and> Send s b \<in> set evs
                \<longrightarrow> well_framed e b \<and> length b = length buffer \<and> take 3 b = take 3 buffer)"
    apply (rule exI[of _ ?buf])
    apply (intro conjI)
           apply (fact b)
          apply (fact t(1))
         apply (fact d)
        apply (fact l)
       apply (fact snapshot_length_field)
      apply (fact pc)
     apply (fact bc)
    apply (fact ev)
    done
  then show ?thesis
    using framed_input framed_connect framed_accept framed_handle by blast
qed

theorem C3_header_length_is_payload_size_witness:
  "build_state LittleEndian sample_float_bits cleared_block one_client_server
     = Some ([5, 31, 0] @ snapshot_payload LittleEndian sample_float_bits one_client_server)
   \<and> length (snapshot_payload LittleEndian sample_float_bits one_client_server) = 31"
proof -
  from C3_header_length_is_payload_size[OF one_client_facts(1,2),
      of LittleEndian sample_float_bits cleared_block]
  obtain buffer where b:
    "build_state LittleEndian sample_float_bits cleared_block one_client_server = Some buffer"
    "take 3 buffer = MessageHeader_bytes LittleEndian (snapshot_header sample_float_bits one_client_server)"
    "drop 3 buffer = GameStateMsg_bytes LittleEndian (snapshot_fixed sample_float_bits one_client_server)
               @ concat (map (PlayerState_bytes LittleEndian) (snapshot_players sample_float_bits one_client_server))
               @ concat (map (BulletState_bytes LittleEndian) (snapshot_bullets sample_float_bits one_client_server))"
    "uint (h_length (snapshot_header sample_float_bits one_client_server)) = int (length (drop 3 buffer))"
    "uint (h_length (snapshot_header sample_float_bits one_client_server)) =
               sizeof_GameStateMsg
                 + int (length (snapshot_players sample_float_bits one_client_server)) * sizeof_PlayerState
                 + int (length (snapshot_bullets sample_float_bits one_client_server)) * sizeof_BulletState"
    by blast
  have h: "MessageHeader_bytes LittleEndian (snapshot_header sample_float_bits one_client_server)
      = [5, 31, 0]"
    by (simp add: MessageHeader_bytes_def snapshot_header_def one_client_facts synced_bullets_def
        MSG_GAME_STATE_def sizeof_GameStateMsg_def sizeof_PlayerState_def store16_def le16_def)
  have p: "drop 3 buffer = snapshot_payload LittleEndian sample_float_bits one_client_server"
    using b(3) by (simp add: snapshot_payload_def)
  have "buffer = take 3 buffer @ drop 3 buffer" by simp
  then have "buffer = [5, 31, 0] @ snapshot_payload LittleEndian sample_float_bits one_client_server"
    using b(2) h p by simp
  moreover have "length (snapshot_payload LittleEndian sample_float_bits one_client_server) = 31"
    using b(4,5) p
    by (simp add: one_client_facts synced_bullets_def sizeof_GameStateMsg_def sizeof_PlayerState_def)
  ultimately show ?thesis using b(1) by simp
qed

section \<open>The broadcast\<close>

lemma sorted_take_lt:
  assumes "sorted_wrt (<) xs" "i \<in> set (take n xs)" "j \<in> set xs" "j \<notin> set (take n xs)"
  shows "i < (j::nat)"
proof -
  have "xs = take n xs @ drop n xs" by simp
  then have "sorted_wrt (<) (take n xs @ drop n xs)" using assms(1) by simp
  then have "\<forall>a \<in> set (take n xs). \<forall>b \<in> set (drop n xs). a < b"
    unfolding sorted_wrt_append by blast
  moreover have "j \<in> set (drop n xs)"
    using assms(3,4) by (metis Un_iff append_take_drop_id set_append)
  ultimately show ?thesis using assms(2) by blast
qed

lemma sorted_active_bullets: "sorted_wrt (<) (active_bullets server)"
  unfolding active_bullets_def by (intro sorted_wrt_filter) (simp add: sorted_wrt_upt)

text \<open>
  C8, amended. Every snapshot sent holds a record for every active player, in slot
  order, and at most 50 bullet records; they are the records of the first 50 active
  bullet slots in slot order, so every bullet sent sits in a lower slot than every
  live bullet left out. (The bullets sent need not be the oldest: a spawn takes the
  lowest free slot.)
\<close>

theorem C8_snapshot_takes_lowest_slots:
  assumes "wf_server server" "players_counted server"
  shows "\<exists>server' evs. server_send_state e fb (Some fresh) sent server = Some (server', evs)
     \<and> (\<forall>s b. Send s b \<in> set evs \<longrightarrow>
           drop 13 b = concat (map (PlayerState_bytes e) (snapshot_players fb server))
                        @ concat (map (BulletState_bytes e) (snapshot_bullets fb server))
           \<and> unat (b ! 11) = length (snapshot_players fb server)
           \<and> unat (b ! 12) = length (snapshot_bullets fb server))
     \<and> snapshot_players fb server =
           map (\<lambda>i. PlayerState_of fb i (sv_players server ! i))
             (filter (\<lambda>i. sp_active (sv_players server ! i) \<noteq> 0) [0..<MAX_PLAYERS])
     \<and> snapshot_bullets fb server =
           map (\<lambda>i. BulletState_of fb (sv_bullets server ! i)) (synced_bullets server)
     \<and> synced_bullets server = take 50 (active_bullets server)
     \<and> length (snapshot_bullets fb server) = min 50 (length (active_bullets server))
     \<and> length (snapshot_bullets fb server) \<le> 50
     \<and> (\<forall>i j. i \<in> set (synced_bullets server) \<and> j \<in> set (active_bullets server)
             \<and> j \<notin> set (synced_bullets server) \<longrightarrow> i < j)"
proof -
  let ?ps = "sv_players server"
  let ?f = "failed_sends sent ?ps [0..<MAX_PLAYERS]"
  let ?buf = "MessageHeader_bytes e (snapshot_header fb server) @ snapshot_payload e fb server"
  let ?s = "server\<lparr>sv_players := fold deactivate ?f ?ps,
      sv_player_count := sv_player_count server - int (length ?f)\<rparr>"
  let ?evs = "broadcast_events e sent ?buf ?ps [0..<MAX_PLAYERS]"
  let ?recs = "concat (map (PlayerState_bytes e) (snapshot_players fb server))
                        @ concat (map (BulletState_bytes e) (snapshot_bullets fb server))"
  have r: "server_send_state e fb (Some fresh) sent server = Some (?s, ?evs)"
    by (rule server_send_state_eq[OF assms])
  have pc: "unat (gm_player_count (snapshot_fixed fb server)) = length (snapshot_players fb server)"
    using length_active_players[of server]
    by (simp add: snapshot_fixed_def unat_of_nat)
  have bc: "unat (gm_bullet_count (snapshot_fixed fb server)) = length (snapshot_bullets fb server)"
    using length_synced_bullets[of server]
    by (simp add: snapshot_fixed_def unat_of_nat)
  have 1: "\<forall>s b. Send s b \<in> set ?evs \<longrightarrow> drop 13 b = ?recs
      \<and> unat (b ! 11) = length (snapshot_players fb server)
      \<and> unat (b ! 12) = length (snapshot_bullets fb server)"
  proof (intro allI impI)
    fix s b assume "Send s b \<in> set ?evs"
    then obtain n where b: "b = with_sequence e ?buf n"
      by (rule broadcast_event_cases) (auto simp: net_close_def split: if_splits)
    have w: "with_sequence e ?buf n = MessageHeader_bytes e (snapshot_header fb server)
        @ store32 e (gm_tick (snapshot_fixed fb server)) @ store32 e n
        @ [gm_player_count (snapshot_fixed fb server), gm_bullet_count (snapshot_fixed fb server)]
        @ ?recs"
      by (simp add: with_sequence_def snapshot_payload_def GameStateMsg_bytes_def)
    have n11: "(with_sequence e ?buf n) ! 11 = gm_player_count (snapshot_fixed fb server)"
      unfolding w by (simp add: nth_append)
    have n12: "(with_sequence e ?buf n) ! 12 = gm_bullet_count (snapshot_fixed fb server)"
      unfolding w by (simp add: nth_append)
    have d: "drop 13 (with_sequence e ?buf n) = ?recs"
      unfolding w by simp
    show "drop 13 b = ?recs
      \<and> unat (b ! 11) = length (snapshot_players fb server)
      \<and> unat (b ! 12) = length (snapshot_bullets fb server)"
      unfolding b n11 n12 d using pc bc by simp
  qed
  have 2: "\<forall>i j. i \<in> set (synced_bullets server) \<and> j \<in> set (active_bullets server)
             \<and> j \<notin> set (synced_bullets server) \<longrightarrow> i < j"
    unfolding synced_bullets_def using sorted_take_lt[OF sorted_active_bullets] by blast
  show ?thesis
    apply (rule exI[of _ ?s])
    apply (rule exI[of _ ?evs])
    apply (intro conjI)
           apply (fact r)
          apply (fact 1)
         apply (simp add: snapshot_players_def active_players_def)
        apply (simp add: snapshot_bullets_def)
       apply (simp add: synced_bullets_def MAX_SYNC_BULLETS_def)
      apply (simp add: synced_bullets_def MAX_SYNC_BULLETS_def)
     apply (simp add: synced_bullets_def MAX_SYNC_BULLETS_def)
    apply (fact 2)
    done
qed

lemma map_nth_upt_take:
  assumes "n \<le> length xs"
  shows "map (\<lambda>i. xs ! i) [0..<n] = take n xs"
  using assms by (intro nth_equalityI) auto

lemma fifty_one_facts:
  "wf_server fifty_one_bullets" "players_counted fifty_one_bullets"
  "active_players fifty_one_bullets = [0]"
  "active_bullets fifty_one_bullets = [0..<51]"
  "synced_bullets fifty_one_bullets = [0..<50]"
proof -
  show a: "active_players fifty_one_bullets = [0]"
    by (simp add: active_players_def upt_4 fifty_one_bullets_def one_client_server_def
        zeroed_player_def)
  show "wf_server fifty_one_bullets"
    by (simp add: wf_server_def fifty_one_bullets_def one_client_server_def MAX_PLAYERS_def
        MAX_SERVER_BULLETS_def)
  show "players_counted fifty_one_bullets"
    by (simp add: players_counted_def a) (simp add: fifty_one_bullets_def one_client_server_def)
  let ?bs = "young_bullet # replicate 50 old_bullet @ replicate 149 zeroed_bullet"
  have bs: "sv_bullets fifty_one_bullets = ?bs" by (simp add: fifty_one_bullets_def)
  have lo: "\<And>i. i < 51 \<Longrightarrow> sb_active (?bs ! i) \<noteq> 0"
    by (auto simp: nth_Cons' nth_append young_bullet_def old_bullet_def)
  have hi: "\<And>i. 51 \<le> i \<Longrightarrow> i < 200 \<Longrightarrow> sb_active (?bs ! i) = 0"
    by (auto simp: nth_Cons' nth_append zeroed_bullet_def)
  have "[0..<200] = [0..<51] @ [51..<200]"
    using upt_add_eq_append[of 0 51 149] by simp
  then have "filter (\<lambda>i. sb_active (?bs ! i) \<noteq> 0) [0..<200]
      = filter (\<lambda>i. sb_active (?bs ! i) \<noteq> 0) [0..<51]
        @ filter (\<lambda>i. sb_active (?bs ! i) \<noteq> 0) [51..<200]"
    by (simp only: filter_append)
  also have "filter (\<lambda>i. sb_active (?bs ! i) \<noteq> 0) [0..<51] = [0..<51]"
  proof (rule filter_True, rule ballI)
    fix i :: nat assume "i \<in> set [0..<51]"
    then have "i < 51" by (simp only: set_upt atLeastLessThan_iff)
    then show "sb_active (?bs ! i) \<noteq> 0" by (rule lo)
  qed
  also have "filter (\<lambda>i. sb_active (?bs ! i) \<noteq> 0) [51..<200] = []"
  proof (rule filter_False, rule ballI)
    fix i :: nat assume "i \<in> set [51..<200]"
    then have "51 \<le> i" "i < 200" by (simp_all only: set_upt atLeastLessThan_iff)
    then have "sb_active (?bs ! i) = 0" by (rule hi)
    then show "\<not> sb_active (?bs ! i) \<noteq> 0" by blast
  qed
  finally show b: "active_bullets fifty_one_bullets = [0..<51]"
    by (simp add: active_bullets_def bs MAX_SERVER_BULLETS_def)
  show "synced_bullets fifty_one_bullets = [0..<50]"
    by (simp add: synced_bullets_def b MAX_SYNC_BULLETS_def take_upt)
qed

text \<open>
  C8 as stated fails: with 51 live bullets of which the one in slot 0 is the newest, the
  50 bullet records of the snapshot are that newest bullet and 49 of the older ones;
  the older bullet in slot 50 is left out.
\<close>

theorem C8_newest_bullet_sent_counterexample:
  "map_option (drop 34)
      (build_state LittleEndian sample_float_bits cleared_block fifty_one_bullets)
     = Some (concat (map (BulletState_bytes LittleEndian)
               (map (BulletState_of sample_float_bits) (young_bullet # replicate 49 old_bullet))))
   \<and> sv_bullets fifty_one_bullets ! 50 = old_bullet \<and> sb_active old_bullet \<noteq> 0
   \<and> sb_lifetime old_bullet < sb_lifetime young_bullet"
proof -
  let ?bs = "young_bullet # replicate 50 old_bullet @ replicate 149 zeroed_bullet"
  have bs: "sv_bullets fifty_one_bullets = ?bs" by (simp add: fifty_one_bullets_def)
  have "map (\<lambda>i. ?bs ! i) [0..<50] = take 50 ?bs"
    by (rule map_nth_upt_take) simp
  then have m: "map (\<lambda>i. ?bs ! i) [0..<50] = young_bullet # replicate 49 old_bullet"
    by simp
  have sb: "snapshot_bullets sample_float_bits fifty_one_bullets
      = map (BulletState_of sample_float_bits) (young_bullet # replicate 49 old_bullet)"
    unfolding snapshot_bullets_def fifty_one_facts(5) bs m[symmetric]
    by (simp only: map_map comp_def)
  have lp: "length (snapshot_players sample_float_bits fifty_one_bullets) = 1"
    by (simp add: fifty_one_facts)
  have "drop 34 (MessageHeader_bytes LittleEndian (snapshot_header sample_float_bits fifty_one_bullets)
        @ snapshot_payload LittleEndian sample_float_bits fifty_one_bullets)
      = concat (map (BulletState_bytes LittleEndian) (snapshot_bullets sample_float_bits fifty_one_bullets))"
    using lp by (simp add: snapshot_payload_def length_concat_const[where n = 21])
  then have "map_option (drop 34)
      (build_state LittleEndian sample_float_bits cleared_block fifty_one_bullets)
     = Some (concat (map (BulletState_bytes LittleEndian)
               (map (BulletState_of sample_float_bits) (young_bullet # replicate 49 old_bullet))))"
    unfolding build_state_layout[OF fifty_one_facts(1,2)] sb by simp
  moreover have "sv_bullets fifty_one_bullets ! 50 = old_bullet"
    by (simp add: bs nth_append)
  moreover have "sb_active old_bullet \<noteq> 0" "sb_lifetime old_bullet < sb_lifetime young_bullet"
    by (simp_all add: old_bullet_def young_bullet_def)
  ultimately show ?thesis by blast
qed

theorem C8_snapshot_takes_lowest_slots_witness:
  "\<exists>server' evs.
     server_send_state LittleEndian sample_float_bits (Some cleared_block) send_to_slot_0_fails
       fifty_one_bullets = Some (server', evs)
     \<and> length (snapshot_bullets sample_float_bits fifty_one_bullets) = 50
     \<and> synced_bullets fifty_one_bullets = [0..<50]"
proof -
  from C8_snapshot_takes_lowest_slots[OF fifty_one_facts(1,2),
      of LittleEndian sample_float_bits cleared_block send_to_slot_0_fails]
  obtain server' evs where r:
    "server_send_state LittleEndian sample_float_bits (Some cleared_block) send_to_slot_0_fails
       fifty_one_bullets = Some (server', evs)"
    "length (snapshot_bullets sample_float_bits fifty_one_bullets)
       = min 50 (length (active_bullets fifty_one_bullets))"
    by blast
  show ?thesis using r fifty_one_facts(4,5) by auto
qed

section \<open>Spawning and firing\<close>

lemma first_free_bullet_cases:
  "(first_free_bullet bs slots = - 1 \<and> (\<forall>i \<in> set slots. sb_active (bs ! i) \<noteq> 0))
   \<or> (\<exists>f \<in> set slots. first_free_bullet bs slots = int f \<and> sb_active (bs ! f) = 0)"
  by (induction slots) auto

lemma find_free_bullet_cases:
  obtains (full) "server_find_free_bullet server = - 1"
      "\<forall>i < MAX_SERVER_BULLETS. sb_active (sv_bullets server ! i) \<noteq> 0"
    | (free) f where "server_find_free_bullet server = int f" "f < MAX_SERVER_BULLETS"
      "sb_active (sv_bullets server ! f) = 0"
  using first_free_bullet_cases[of "sv_bullets server" "[0..<MAX_SERVER_BULLETS]"]
  unfolding server_find_free_bullet_def by auto

lemma spawn_single_full:
  assumes "server_find_free_bullet server < 0"
  shows "server_spawn_single_bullet server pid x y vx vy w = server"
  using assms by (simp add: server_spawn_single_bullet_def)

lemma spawn_single_free:
  assumes "server_find_free_bullet server = int f"
  shows "server_spawn_single_bullet server pid x y vx vy w =
     server\<lparr>sv_bullets := (sv_bullets server)[f := new_bullet pid x y vx vy w],
            sv_bullet_count := sv_bullet_count server + 1\<rparr>"
  using assms by (simp add: server_spawn_single_bullet_def new_bullet_def)

lemma bullets_kept_refl: "bullets_kept s s"
  by (simp add: bullets_kept_def)

lemma bullets_kept_trans: "bullets_kept s s' \<Longrightarrow> bullets_kept s' s'' \<Longrightarrow> bullets_kept s s''"
  unfolding bullets_kept_def by auto

lemma spawn_single_kept: "bullets_kept server (server_spawn_single_bullet server pid x y vx vy w)"
proof (cases server rule: find_free_bullet_cases)
  case full
  then show ?thesis by (simp add: spawn_single_full bullets_kept_refl)
next
  case (free f)
  have "\<And>j. sb_active (sv_bullets server ! j) \<noteq> 0 \<Longrightarrow> f \<noteq> j"
    using free(3) by auto
  then show ?thesis
    by (simp add: spawn_single_free[OF free(1)] bullets_kept_def)
qed

lemma fold_spawn_kept:
  "bullets_kept server
     (fold (\<lambda>a s. server_spawn_single_bullet s pid (fx a) (fy a) (fvx a) (fvy a) w) as server)"
proof (induction as arbitrary: server)
  case Nil
  then show ?case by (simp add: bullets_kept_refl)
next
  case (Cons a as)
  show ?case
    using bullets_kept_trans[OF spawn_single_kept Cons.IH] by simp
qed

lemma spawn_bullet_kept: "bullets_kept server (server_spawn_bullet server pid x y)"
  unfolding server_spawn_bullet_def Let_def
  using fold_spawn_kept[of server pid "\<lambda>a. x + 10 * sin a" "\<lambda>a. y - 20"
      "\<lambda>a. SPREAD_BULLET_SPEED * sin a" "\<lambda>a. - SPREAD_BULLET_SPEED * cos a"]
  by (simp add: spawn_single_kept)



lemma find_free_bullet_players [simp]:
  "server_find_free_bullet (server\<lparr>sv_players := ps\<rparr>) = server_find_free_bullet server"
  by (simp add: server_find_free_bullet_def)

lemma spawn_bullet_players:
  "sv_players (server_spawn_bullet server pid x y) = sv_players server"
  using spawn_bullet_kept[of server pid x y] by (simp add: bullets_kept_def)


lemma handle_firing_refused:
  assumes "sp_active (sv_players server ! i) \<noteq> 0" "\<not> may_fire dt (sv_players server ! i)"
  shows "handle_firing_of dt i server =
     server\<lparr>sv_players := (sv_players server)
        [i := (sv_players server ! i)\<lparr>sp_fire_cooldown := cooled_down dt (sv_players server ! i)\<rparr>]\<rparr>"
  using assms
  by (auto simp: handle_firing_of_def Let_def may_fire_def cooled_down_def)

lemma handle_firing_fires:
  assumes "i < length (sv_players server)" "sp_active (sv_players server ! i) \<noteq> 0"
    "may_fire dt (sv_players server ! i)"
  shows "handle_firing_of dt i server =
     (server_spawn_bullet
        (server\<lparr>sv_players := (sv_players server)
           [i := (sv_players server ! i)\<lparr>sp_fire_cooldown := cooled_down dt (sv_players server ! i)\<rparr>]\<rparr>)
        i (sp_x (sv_players server ! i)) (sp_y (sv_players server ! i)))
     \<lparr>sv_players := (sv_players server)
        [i := (sv_players server ! i)\<lparr>sp_fire_cooldown :=
                get_weapon_cooldown (sp_weapon (sv_players server ! i))\<rparr>]\<rparr>"
  using assms
  by (auto simp: handle_firing_of_def Let_def may_fire_def cooled_down_def spawn_bullet_players)




lemma handle_firing_length [simp]:
  "length (sv_bullets (handle_firing_of dt i server)) = length (sv_bullets server)"
  "length (sv_players (handle_firing_of dt i server)) = length (sv_players server)"
proof -
  have k: "\<And>s x y. length (sv_bullets (server_spawn_bullet s i x y)) = length (sv_bullets s)"
    "\<And>s x y. sv_players (server_spawn_bullet s i x y) = sv_players s"
    using spawn_bullet_kept by (simp_all add: bullets_kept_def)
  show "length (sv_bullets (handle_firing_of dt i server)) = length (sv_bullets server)"
    by (simp add: handle_firing_of_def Let_def k)
  show "length (sv_players (handle_firing_of dt i server)) = length (sv_players server)"
    by (simp add: handle_firing_of_def Let_def k)
qed










section \<open>Byte order\<close>

lemma store_rev:
  "store16 BigEndian w = rev (store16 LittleEndian w)"
  "store32 BigEndian v = rev (store32 LittleEndian v)"
  by (simp_all add: store16_def store32_def)

lemma store16_7: "(store16 e1 7 = store16 e2 7) = (e1 = e2)"
  by (cases e1; cases e2) (simp_all add: store16_def le16_def)

lemma header_roundtrip: "MessageHeader_of_bytes e (MessageHeader_bytes e h) = h"
  by (simp add: MessageHeader_of_bytes_def MessageHeader_bytes_def load16_store16)

lemma input_roundtrip: "PlayerInputMsg_of_bytes e (PlayerInputMsg_bytes e m) = m"
  by (simp add: PlayerInputMsg_of_bytes_def PlayerInputMsg_bytes_def load32_store32)

lemma send_input_bytes:
  "sent_bytes (snd (thread_send_input e client)) =
     [MSG_PLAYER_INPUT] @ store16 e 7
       @ [nc_player_id client, ss_input_to_send (nc_shared client), ss_weapon_type (nc_shared client)]
       @ store32 e (ss_input_sequence (nc_shared client))"
  by (simp add: thread_send_input_def shared_state_get_input_def Let_def MessageHeader_bytes_def
      PlayerInputMsg_bytes_def sizeof_PlayerInputMsg_def)

lemma send_input_differs:
  "(sent_bytes (snd (thread_send_input e1 client)) = sent_bytes (snd (thread_send_input e2 client)))
     = (e1 = e2)"
proof
  assume "sent_bytes (snd (thread_send_input e1 client))
      = sent_bytes (snd (thread_send_input e2 client))"
  then have "take 2 (drop 1 (sent_bytes (snd (thread_send_input e1 client))))
      = take 2 (drop 1 (sent_bytes (snd (thread_send_input e2 client))))"
    by simp
  then have "store16 e1 7 = store16 e2 7"
    by (simp add: send_input_bytes)
  then show "e1 = e2" by (simp add: store16_7)
next
  assume "e1 = e2"
  then show "sent_bytes (snd (thread_send_input e1 client))
      = sent_bytes (snd (thread_send_input e2 client))" by simp
qed

text \<open>
  C2, amended. Every multi-byte field of a message is written in the byte order of the
  sending host, with no conversion to a fixed order: on a little-endian host the least
  significant byte comes first, on a big-endian host the bytes are the same in reverse.
  The bytes of a message are therefore the same on hosts of the same byte order only:
  the bytes \<open>thread_send_input\<close> sends for any input are equal on two hosts exactly when
  the hosts have the same byte order. A receiver of the sender's byte order reads the
  header and the input back unchanged. The snapshot is the header, the fixed part and
  the records in the byte order of the server's host.
\<close>

theorem C2_fields_in_host_byte_order:
  "((sent_bytes (snd (thread_send_input e1 client))
       = sent_bytes (snd (thread_send_input e2 client))) = (e1 = e2))
   \<and> sent_bytes (snd (thread_send_input e client)) =
       [MSG_PLAYER_INPUT] @ store16 e 7
       @ [nc_player_id client, ss_input_to_send (nc_shared client), ss_weapon_type (nc_shared client)]
       @ store32 e (ss_input_sequence (nc_shared client))
   \<and> store16 BigEndian w = rev (store16 LittleEndian w)
   \<and> store32 BigEndian v = rev (store32 LittleEndian v)
   \<and> store16 LittleEndian w = [ucast w, ucast (drop_bit 8 w)]
   \<and> store32 LittleEndian v
       = [ucast v, ucast (drop_bit 8 v), ucast (drop_bit 16 v), ucast (drop_bit 24 v)]
   \<and> MessageHeader_of_bytes e (MessageHeader_bytes e h) = h
   \<and> PlayerInputMsg_of_bytes e (PlayerInputMsg_bytes e m) = m
   \<and> (wf_server server \<and> players_counted server \<longrightarrow>
        build_state e fb fresh server =
          Some (MessageHeader_bytes e (snapshot_header fb server)
                  @ GameStateMsg_bytes e (snapshot_fixed fb server)
                  @ concat (map (PlayerState_bytes e) (snapshot_players fb server))
                  @ concat (map (BulletState_bytes e) (snapshot_bullets fb server))))"
  using send_input_differs send_input_bytes store_rev header_roundtrip input_roundtrip
    build_state_layout[of server e fb fresh]
  by (simp add: snapshot_payload_def store16_def store32_def le16_def le32_def)

text \<open>
  C2 as stated fails: the bytes of one and the same input message (sequence 258, fire
  flag, rapid weapon) differ between a little-endian and a big-endian client.
\<close>

theorem C2_host_byte_order_counterexample:
  "sent_bytes (snd (thread_send_input LittleEndian sample_client))
     = [4, 7, 0, 0, 16, 1, 2, 1, 0, 0]
   \<and> sent_bytes (snd (thread_send_input BigEndian sample_client))
     = [4, 0, 7, 0, 16, 1, 0, 0, 1, 2]"
  by (simp add: send_input_bytes sample_client_def MSG_PLAYER_INPUT_def store16_def store32_def
      le16_def le32_def drop_bit_eq_div)

theorem C2_fields_in_host_byte_order_witness:
  "build_state BigEndian sample_float_bits cleared_block one_client_server =
          Some (MessageHeader_bytes BigEndian (snapshot_header sample_float_bits one_client_server)
                  @ GameStateMsg_bytes BigEndian (snapshot_fixed sample_float_bits one_client_server)
                  @ concat (map (PlayerState_bytes BigEndian)
                      (snapshot_players sample_float_bits one_client_server))
                  @ concat (map (BulletState_bytes BigEndian)
                      (snapshot_bullets sample_float_bits one_client_server)))
   \<and> MessageHeader_bytes BigEndian (snapshot_header sample_float_bits one_client_server)
       = [5, 0, 31]"
proof -
  have h: "MessageHeader_bytes BigEndian (snapshot_header sample_float_bits one_client_server)
      = [5, 0, 31]"
    by (simp add: MessageHeader_bytes_def snapshot_header_def one_client_facts synced_bullets_def
        MSG_GAME_STATE_def sizeof_GameStateMsg_def sizeof_PlayerState_def store16_def le16_def)
  from C2_fields_in_host_byte_order[where server = one_client_server and e = BigEndian
      and fb = sample_float_bits and fresh = cleared_block]
    one_client_facts(1,2) h
  show ?thesis by blast
qed

section \<open>The state invariant\<close>

lemma server_invariant_iff:
  "server_invariant s =
     (length (sv_players s) = MAX_PLAYERS \<and> length (sv_bullets s) = MAX_SERVER_BULLETS
      \<and> sv_player_count s = int (length (filter (\<lambda>p. sp_active p \<noteq> 0) (sv_players s)))
      \<and> sv_bullet_count s = int (length (filter (\<lambda>b. sb_active b \<noteq> 0) (sv_bullets s))))"
  unfolding server_invariant_def
  using players_counted_iff[of s] bullets_counted_iff[of s]
  by (auto simp: wf_server_def)

lemma inv_player_update:
  assumes "server_invariant s" "i < MAX_PLAYERS"
  shows "server_invariant
     (s\<lparr>sv_players := (sv_players s)[i := p],
        sv_player_count := sv_player_count s + (if sp_active p \<noteq> 0 then 1 else 0)
            - (if sp_active (sv_players s ! i) \<noteq> 0 then 1 else 0)\<rparr>)"
proof -
  have l: "i < length (sv_players s)" using assms by (simp add: server_invariant_iff)
  show ?thesis
    using assms(1) filter_update_count[OF l, of "\<lambda>p. sp_active p \<noteq> 0" p]
    by (simp add: server_invariant_iff)
qed

lemma inv_player_same:
  assumes "server_invariant s" "i < MAX_PLAYERS"
    "(sp_active p \<noteq> 0) = (sp_active (sv_players s ! i) \<noteq> 0)"
  shows "server_invariant (s\<lparr>sv_players := (sv_players s)[i := p]\<rparr>)"
  using inv_player_update[OF assms(1,2), of p] assms(3) by (cases "sp_active p \<noteq> 0") simp_all

lemma inv_bullet_update:
  assumes "server_invariant s" "i < MAX_SERVER_BULLETS"
  shows "server_invariant
     (s\<lparr>sv_bullets := (sv_bullets s)[i := b],
        sv_bullet_count := sv_bullet_count s + (if sb_active b \<noteq> 0 then 1 else 0)
            - (if sb_active (sv_bullets s ! i) \<noteq> 0 then 1 else 0)\<rparr>)"
proof -
  have l: "i < length (sv_bullets s)" using assms by (simp add: server_invariant_iff)
  show ?thesis
    using assms(1) filter_update_count[OF l, of "\<lambda>b. sb_active b \<noteq> 0" b]
    by (simp add: server_invariant_iff)
qed

lemma first_free_player_cases:
  "(first_free_player ps slots = - 1 \<and> (\<forall>i \<in> set slots. sp_active (ps ! i) \<noteq> 0))
   \<or> (\<exists>f \<in> set slots. first_free_player ps slots = int f \<and> sp_active (ps ! f) = 0)"
  by (induction slots) auto

lemma find_free_slot_cases:
  obtains (full) "server_find_free_slot server = - 1"
    | (free) f where "server_find_free_slot server = int f" "f < MAX_PLAYERS"
      "sp_active (sv_players server ! f) = 0"
  using first_free_player_cases[of "sv_players server" "[0..<MAX_PLAYERS]"]
  unfolding server_find_free_slot_def by auto

lemma inv_accept:
  assumes "server_invariant server"
  shows "server_invariant (fst (server_accept_new_client e io server))"
proof (cases server rule: find_free_slot_cases)
  case full
  then show ?thesis using assms by (simp add: server_accept_new_client_def Let_def)
next
  case (free f)
  let ?p = "zeroed_player
                  \<lparr>sp_active := 1, sp_socket := acc_socket io, sp_addr := acc_addr io,
                   sp_name := (if cm_name (acc_msg io) ! 0 \<noteq> 0
                               then c_strncpy 15 (cm_name (acc_msg io)) @ [0]
                               else default_name (int f + 1)),
                   sp_x := 100 + real_of_int (int f) * 150, sp_y := 400,
                   sp_health := 100, sp_weapon := 0\<rparr>"
  have "server_invariant (server\<lparr>sv_players := (sv_players server)[f := ?p],
      sv_player_count := sv_player_count server + 1\<rparr>)"
    using inv_player_update[OF assms free(2), of ?p] free(3) by simp
  then show ?thesis
    using assms free(1) by (simp add: server_accept_new_client_def Let_def)
qed

lemma inv_disconnect:
  assumes "server_invariant server" "i < MAX_PLAYERS" "sp_active (sv_players server ! i) \<noteq> 0"
  shows "server_invariant (fst (disconnect_player server i))"
  using inv_player_update[OF assms(1,2), of "(sv_players server ! i)\<lparr>sp_active := 0\<rparr>"] assms(3)
  by (simp add: disconnect_player_def Let_def)

lemma inv_handle_client_message:
  assumes "server_invariant server" "i < MAX_PLAYERS"
  shows "server_invariant (fst (server_handle_client_message e io server i))"
proof (cases "sp_active (sv_players server ! i) = 0")
  case True
  then show ?thesis using assms by (simp add: server_handle_client_message_def)
next
  case False
  note d = inv_disconnect[OF assms False]
  have u: "server_invariant (server\<lparr>sv_players := (sv_players server)
      [i := (sv_players server ! i)\<lparr>sp_last_sequence := a, sp_input_flags := b, sp_weapon := c\<rparr>]\<rparr>)"
    for a b c
    by (rule inv_player_same[OF assms]) simp
  show ?thesis
    using assms(1) d u by (simp add: server_handle_client_message_def Let_def)
qed

lemma inv_spawn_single:
  assumes "server_invariant server"
  shows "server_invariant (server_spawn_single_bullet server pid x y vx vy w)"
proof (cases server rule: find_free_bullet_cases)
  case full
  then show ?thesis using assms by (simp add: spawn_single_full)
next
  case (free f)
  show ?thesis
    using inv_bullet_update[OF assms free(2), of "new_bullet pid x y vx vy w"] free(3)
    by (simp add: spawn_single_free[OF free(1)] new_bullet_def)
qed

lemma inv_spawn_bullet:
  assumes "server_invariant server"
  shows "server_invariant (server_spawn_bullet server pid x y)"
proof -
  have f: "server_invariant (fold (\<lambda>a s. server_spawn_single_bullet s pid (fx a) (fy a) (fvx a)
      (fvy a) w) as s)" if "server_invariant s" for fx fy fvx fvy w as s
    using that by (induction as arbitrary: s) (simp_all add: inv_spawn_single)
  show ?thesis
    unfolding server_spawn_bullet_def Let_def
    using f[OF assms, of "\<lambda>a. x + 10 * sin a" "\<lambda>a. y - 20"
      "\<lambda>a. SPREAD_BULLET_SPEED * sin a" "\<lambda>a. - SPREAD_BULLET_SPEED * cos a"]
    by (simp add: inv_spawn_single[OF assms])
qed

lemma inv_update_bullet:
  assumes "server_invariant server" "i < MAX_SERVER_BULLETS"
  shows "server_invariant (update_bullet dt i server)"
proof (cases "sb_active (sv_bullets server ! i) = 0")
  case True
  then show ?thesis using assms by (simp add: update_bullet_def)
next
  case False
  let ?m = "(sv_bullets server ! i)\<lparr>sb_x := sb_x (sv_bullets server ! i) + sb_vx (sv_bullets server ! i) * dt,
      sb_y := sb_y (sv_bullets server ! i) + sb_vy (sv_bullets server ! i) * dt,
      sb_lifetime := sb_lifetime (sv_bullets server ! i) - dt\<rparr>"
  have a: "server_invariant (server\<lparr>sv_bullets := (sv_bullets server)[i := ?m\<lparr>sb_active := 0\<rparr>],
      sv_bullet_count := sv_bullet_count server - 1\<rparr>)"
    using inv_bullet_update[OF assms, of "?m\<lparr>sb_active := 0\<rparr>"] False by simp
  have b: "server_invariant (server\<lparr>sv_bullets := (sv_bullets server)[i := ?m]\<rparr>)"
    using inv_bullet_update[OF assms, of ?m] False by simp
  show ?thesis
    using False a b by (simp add: update_bullet_def Let_def)
qed

lemma inv_fold:
  assumes "\<And>i s. i \<in> set slots \<Longrightarrow> server_invariant s \<Longrightarrow> server_invariant (f i s)"
    "server_invariant server"
  shows "server_invariant (fold f slots server)"
  using assms by (induction slots arbitrary: server) simp_all

lemma inv_update_bullets:
  assumes "server_invariant server"
  shows "server_invariant (server_update_bullets server dt)"
  unfolding server_update_bullets_def
  by (rule inv_fold[OF _ assms]) (simp add: inv_update_bullet)

lemma inv_handle_firing_of:
  assumes "server_invariant server" "i < MAX_PLAYERS"
  shows "server_invariant (handle_firing_of dt i server)"
proof (cases "sp_active (sv_players server ! i) = 0")
  case True
  then show ?thesis using assms by (simp add: handle_firing_of_def)
next
  case False
  let ?p = "sv_players server ! i"
  have l: "i < length (sv_players server)" using assms by (simp add: server_invariant_iff)
  let ?s1 = "server\<lparr>sv_players := (sv_players server)
      [i := ?p\<lparr>sp_fire_cooldown := cooled_down dt ?p\<rparr>]\<rparr>"
  have 1: "server_invariant ?s1"
    by (rule inv_player_same[OF assms]) simp
  show ?thesis
  proof (cases "may_fire dt ?p")
    case mf: True
    let ?s2 = "server_spawn_bullet ?s1 i (sp_x ?p) (sp_y ?p)"
    have 2: "server_invariant ?s2" by (rule inv_spawn_bullet[OF 1])
    have ps: "sv_players ?s2 = sv_players ?s1" by (rule spawn_bullet_players)
    have "server_invariant (?s2\<lparr>sv_players := (sv_players ?s2)
        [i := ?p\<lparr>sp_fire_cooldown := get_weapon_cooldown (sp_weapon ?p)\<rparr>]\<rparr>)"
      by (rule inv_player_same[OF 2 assms(2)]) (simp add: ps l)
    then show ?thesis
      unfolding handle_firing_fires[OF l False mf] by (simp add: ps)
  next
    case nf: False
    show ?thesis unfolding handle_firing_refused[OF False nf] by (rule 1)
  qed
qed

lemma inv_handle_firing:
  assumes "server_invariant server"
  shows "server_invariant (server_handle_firing server dt)"
  unfolding server_handle_firing_def
  by (rule inv_fold[OF _ assms]) (simp add: inv_handle_firing_of)

lemma inv_update_physics_of:
  assumes "server_invariant server" "i < MAX_PLAYERS"
  shows "server_invariant (update_physics_of dt i server)"
proof (cases "sp_active (sv_players server ! i) = 0")
  case True
  then show ?thesis using assms by (simp add: update_physics_of_def)
next
  case False
  have "server_invariant (server\<lparr>sv_players := (sv_players server)
     [i := (sv_players server ! i)\<lparr>sp_x := a, sp_y := b, sp_vx := c, sp_vy := d\<rparr>]\<rparr>)" for a b c d
    by (rule inv_player_same[OF assms]) simp
  then show ?thesis
    using False by (simp add: update_physics_of_def Let_def)
qed

lemma inv_update_physics:
  assumes "server_invariant server"
  shows "server_invariant (server_update_physics server dt)"
  unfolding server_update_physics_def
  by (rule inv_fold[OF _ assms]) (simp add: inv_update_physics_of)

lemma inv_send_state:
  assumes "server_invariant server"
    "server_send_state e fb mem sent server = Some (server', evs)"
  shows "server_invariant server'"
proof -
  have a: "wf_server server" "players_counted server" "bullets_counted server"
    using assms(1) by (simp_all add: server_invariant_def)
  from send_state_preserves[OF a(1,2) assms(2)]
  show ?thesis using a(3)
    by (simp add: server_invariant_def bullets_counted_def active_bullets_def)
qed

lemma inv_handle_messages:
  assumes "server_invariant server"
  shows "server_invariant (fst (handle_messages e ios server))"
proof -
  have "server_invariant (fst (fold (\<lambda>i (s, evs).
             if sp_active (sv_players s ! i) \<noteq> 0
             then (let (s', evs') = server_handle_client_message e (ios i) s i in (s', evs @ evs'))
             else (s, evs)) slots acc))"
    if "server_invariant (fst acc)" "\<forall>i \<in> set slots. i < MAX_PLAYERS" for slots acc
    using that
  proof (induction slots arbitrary: acc)
    case Nil
    then show ?case by simp
  next
    case (Cons i slots)
    obtain s evs where acc: "acc = (s, evs)" by (cases acc)
    have i: "i < MAX_PLAYERS" using Cons.prems(2) by simp
    have s: "server_invariant s" using Cons.prems(1) acc by simp
    let ?step = "(if sp_active (sv_players s ! i) \<noteq> 0
             then (let (s', evs') = server_handle_client_message e (ios i) s i in (s', evs @ evs'))
             else (s, evs))"
    have "server_invariant (fst ?step)"
      using s inv_handle_client_message[OF s i, of e "ios i"]
      by (simp add: Let_def split_beta)
    from Cons.IH[OF this] Cons.prems(2) show ?case by (simp add: acc)
  qed
  from this[of "(server, [])" "[0..<MAX_PLAYERS]"] assms show ?thesis
    by (simp add: handle_messages_def)
qed

lemma main_loop_turn_returns:
  assumes "server_invariant server"
  shows "\<exists>server' evs. main_loop_turn e fb io server = Some (server', evs)
     \<and> server_invariant server'"
proof -
  let ?dt = "1 / TICK_RATE"
  let ?s1 = "fst (server_accept_new_client e (t_accept io) server)"
  let ?s2 = "fst (handle_messages e (t_client io) ?s1)"
  let ?s5 = "server_update_bullets (server_handle_firing (server_update_physics ?s2 ?dt) ?dt) ?dt"
  have 5: "server_invariant ?s5"
    by (intro inv_update_bullets inv_handle_firing inv_update_physics inv_handle_messages
        inv_accept assms)
  then have w: "wf_server ?s5" "players_counted ?s5" by (simp_all add: server_invariant_def)
  obtain s6 evs3 where r: "(if sv_player_count ?s5 > 0
      then server_send_state e fb (t_malloc io) (t_sent io) ?s5 else Some (?s5, [])) = Some (s6, evs3)"
    "server_invariant s6"
  proof (cases "sv_player_count ?s5 > 0")
    case False
    then show ?thesis using that 5 by simp
  next
    case True
    show ?thesis
    proof (cases "t_malloc io")
      case None
      then show ?thesis using that[of ?s5 "[]"] 5 True by (simp add: server_send_state_def)
    next
      case (Some fresh)
      from server_send_state_eq[OF w, of e fb fresh "t_sent io"]
      obtain s6 evs3 where x: "server_send_state e fb (t_malloc io) (t_sent io) ?s5 = Some (s6, evs3)"
        using Some by simp
      from inv_send_state[OF 5 x] x True that show ?thesis by simp
    qed
  qed
  have i6: "server_invariant (s6\<lparr>sv_tick := sv_tick s6 + 1\<rparr>)"
    using r(2) by (simp add: server_invariant_iff)
  have "main_loop_turn e fb io server
      = Some (s6\<lparr>sv_tick := sv_tick s6 + 1\<rparr>,
              snd (server_accept_new_client e (t_accept io) server)
                @ snd (handle_messages e (t_client io) ?s1) @ evs3)"
    unfolding main_loop_turn_def Let_def split_beta
    using r(1) by simp
  then show ?thesis using i6 by blast
qed

lemma server_init_players:
  "wf_server (snd (server_init storage created)) = (length (sv_bullets storage) = MAX_SERVER_BULLETS)"
  "players_counted (snd (server_init storage created))"
  "sv_bullets (snd (server_init storage created)) = sv_bullets storage"
  "sv_bullet_count (snd (server_init storage created)) = sv_bullet_count storage"
proof -
  have a: "active_players (snd (server_init storage created)) = []"
    by (simp add: active_players_def server_init_def Let_def filter_empty_conv MAX_PLAYERS_def
        zeroed_player_def)
  show "players_counted (snd (server_init storage created))"
    unfolding players_counted_def a by (simp add: server_init_def Let_def)
qed (simp_all add: server_init_def Let_def wf_server_def)


lemma invariant_preserved:
  assumes "server_invariant server"
  shows "server_invariant (fst (server_accept_new_client e aio server))"
    and "i < MAX_PLAYERS \<Longrightarrow> server_invariant (fst (server_handle_client_message e cio server i))"
    and "server_invariant (server_spawn_single_bullet server pid x y vx vy w)"
    and "server_invariant (server_spawn_bullet server pid x y)"
    and "server_invariant (server_handle_firing server dt)"
    and "server_invariant (server_update_physics server dt)"
    and "server_invariant (server_update_bullets server dt)"
    and "server_send_state e fb mem sent server = Some (server', evs) \<Longrightarrow> server_invariant server'"
  using assms
  by (simp_all add: inv_accept inv_handle_client_message inv_spawn_single inv_spawn_bullet
      inv_handle_firing inv_update_physics inv_update_bullets inv_send_state)

text \<open>
  C10. Every operation of the server keeps the two counts equal to the numbers of
  active slots (\<open>invariant_preserved\<close>, \<open>main_loop_turn_returns\<close>), and \<open>server_init\<close>
  makes the player count right. It does not write the bullet table or the bullet
  count, though: on storage that holds 200 bullet slots marked active and a count of 0,
  the server it returns has 200 active bullet slots and a bullet count of 0.
\<close>

theorem C10_server_init_leaves_bullets_unset:
  "players_counted (snd (server_init stale_storage 3))
   \<and> \<not> bullets_counted (snd (server_init stale_storage 3))
   \<and> sv_bullet_count (snd (server_init stale_storage 3)) = 0
   \<and> length (active_bullets (snd (server_init stale_storage 3))) = 200
   \<and> \<not> server_invariant (snd (server_init stale_storage 3))"
proof -
  let ?s = "snd (server_init stale_storage 3)"
  have b: "sv_bullets ?s = replicate 200 old_bullet" "sv_bullet_count ?s = 0"
    by (simp_all add: server_init_players stale_storage_def)
  have "filter (\<lambda>i. sb_active (sv_bullets ?s ! i) \<noteq> 0) [0..<MAX_SERVER_BULLETS]
      = [0..<MAX_SERVER_BULLETS]"
  proof (rule filter_True, rule ballI)
    fix i assume "i \<in> set [0..<MAX_SERVER_BULLETS]"
    then have "i < 200" by (simp add: MAX_SERVER_BULLETS_def)
    then show "sb_active (sv_bullets ?s ! i) \<noteq> 0" by (simp add: b old_bullet_def)
  qed
  then have l: "length (active_bullets ?s) = 200"
    by (simp add: active_bullets_def MAX_SERVER_BULLETS_def)
  then have n: "\<not> bullets_counted ?s" by (simp add: bullets_counted_def b)
  then have "\<not> server_invariant ?s" by (simp add: server_invariant_def)
  then show ?thesis using server_init_players(2)[of stale_storage 3] n b(2) l by blast
qed

section \<open>A failed send\<close>

text \<open>
  C5. In a broadcast (with the buffer allocated), every client that is active when the
  broadcast starts is sent the snapshot with its own sequence, whatever happens to the
  sends to the others. A client whose send fails is closed and its slot alone is
  changed, by clearing its \<open>active\<close> flag; the player count goes down by the number of
  failed sends and stays the number of active slots; nothing else in the server
  changes, and the function returns. A whole turn of the loop of \<open>main\<close> returns as
  well, whatever the sockets do, and leaves a server on which the next turn returns.
\<close>

theorem C5_failed_send_frees_only_that_slot:
  assumes "wf_server server" "players_counted server"
  shows "\<exists>server' evs. server_send_state e fb (Some fresh) sent server = Some (server', evs)
     \<and> (\<forall>i<MAX_PLAYERS. sp_active (sv_players server ! i) \<noteq> 0 \<longrightarrow>
           Send (sp_socket (sv_players server ! i))
             (with_sequence e
                (MessageHeader_bytes e (snapshot_header fb server) @ snapshot_payload e fb server)
                (sp_last_sequence (sv_players server ! i))) \<in> set evs)
     \<and> (\<forall>i<MAX_PLAYERS. sp_active (sv_players server ! i) \<noteq> 0 \<and> sent i < 0 \<longrightarrow>
           Close (sp_socket (sv_players server ! i)) \<in> set evs
           \<or> sp_socket (sv_players server ! i) = INVALID_SOCKET)
     \<and> length (sv_players server') = MAX_PLAYERS
     \<and> (\<forall>i<MAX_PLAYERS. sv_players server' ! i =
           (if sp_active (sv_players server ! i) \<noteq> 0 \<and> sent i < 0
            then (sv_players server ! i)\<lparr>sp_active := 0\<rparr> else sv_players server ! i))
     \<and> sv_player_count server' = sv_player_count server
           - int (length (filter (\<lambda>i. sp_active (sv_players server ! i) \<noteq> 0 \<and> sent i < 0)
                            [0..<MAX_PLAYERS]))
     \<and> players_counted server'
     \<and> server' = server\<lparr>sv_players := sv_players server',
                           sv_player_count := sv_player_count server'\<rparr>
     \<and> (bullets_counted server \<longrightarrow>
          (\<forall>io. \<exists>next_server evs'. main_loop_turn e fb io server = Some (next_server, evs')
                \<and> server_invariant next_server))"
proof -
  let ?ps = "sv_players server"
  let ?f = "failed_sends sent ?ps [0..<MAX_PLAYERS]"
  let ?buf = "MessageHeader_bytes e (snapshot_header fb server) @ snapshot_payload e fb server"
  let ?s = "server\<lparr>sv_players := fold deactivate ?f ?ps,
      sv_player_count := sv_player_count server - int (length ?f)\<rparr>"
  let ?evs = "broadcast_events e sent ?buf ?ps [0..<MAX_PLAYERS]"
  have r: "server_send_state e fb (Some fresh) sent server = Some (?s, ?evs)"
    by (rule server_send_state_eq[OF assms])
  have len: "length ?ps = MAX_PLAYERS" using assms(1) by (simp add: wf_server_def)
  have 1: "\<forall>i<MAX_PLAYERS. sp_active (?ps ! i) \<noteq> 0 \<longrightarrow>
      Send (sp_socket (?ps ! i)) (with_sequence e ?buf (sp_last_sequence (?ps ! i))) \<in> set ?evs"
    by (auto intro: broadcast_sends_all)
  have 2: "\<forall>i<MAX_PLAYERS. sp_active (?ps ! i) \<noteq> 0 \<and> sent i < 0 \<longrightarrow>
      Close (sp_socket (?ps ! i)) \<in> set ?evs \<or> sp_socket (?ps ! i) = INVALID_SOCKET"
    unfolding broadcast_events_def by (auto simp: net_close_def)
  have 3: "\<forall>i<MAX_PLAYERS. sv_players ?s ! i =
      (if sp_active (?ps ! i) \<noteq> 0 \<and> sent i < 0 then (?ps ! i)\<lparr>sp_active := 0\<rparr> else ?ps ! i)"
    using len by (auto simp: fold_deactivate_nth failed_sends_props)
  have 4: "players_counted ?s"
    using send_state_preserves[OF assms r] by simp
  have 5: "bullets_counted server \<longrightarrow>
      (\<forall>io. \<exists>next_server evs'. main_loop_turn e fb io server = Some (next_server, evs')
            \<and> server_invariant next_server)"
    using main_loop_turn_returns assms by (simp add: server_invariant_def)
  show ?thesis
    apply (rule exI[of _ ?s])
    apply (rule exI[of _ ?evs])
    apply (intro conjI)
           apply (fact r)
          apply (fact 1)
         apply (fact 2)
        apply (simp add: len)
       apply (fact 3)
      apply (simp add: failed_sends_def)
      apply (fact 4)
     apply simp
    apply (fact 5)
    done
qed



theorem C5_failed_send_frees_only_that_slot_witness:
  "\<exists>server' evs.
     server_send_state LittleEndian sample_float_bits (Some cleared_block) send_to_slot_0_fails
       two_client_server = Some (server', evs)
     \<and> sp_active (sv_players server' ! 0) = 0
     \<and> sv_players server' ! 1 = sv_players two_client_server ! 1
     \<and> sv_player_count server' = 1
     \<and> Send 5 (with_sequence LittleEndian
                 (MessageHeader_bytes LittleEndian (snapshot_header sample_float_bits two_client_server)
                    @ snapshot_payload LittleEndian sample_float_bits two_client_server) 12) \<in> set evs
     \<and> Close 4 \<in> set evs"
proof -
  from C5_failed_send_frees_only_that_slot[OF two_client_facts(1,2),
      of LittleEndian sample_float_bits cleared_block send_to_slot_0_fails]
  obtain server' evs where r:
    "server_send_state LittleEndian sample_float_bits (Some cleared_block) send_to_slot_0_fails
       two_client_server = Some (server', evs)"
    "\<forall>i<MAX_PLAYERS. sp_active (sv_players two_client_server ! i) \<noteq> 0 \<longrightarrow>
           Send (sp_socket (sv_players two_client_server ! i))
             (with_sequence LittleEndian
                (MessageHeader_bytes LittleEndian (snapshot_header sample_float_bits two_client_server)
                   @ snapshot_payload LittleEndian sample_float_bits two_client_server)
                (sp_last_sequence (sv_players two_client_server ! i))) \<in> set evs"
    "\<forall>i<MAX_PLAYERS. sp_active (sv_players two_client_server ! i) \<noteq> 0 \<and> send_to_slot_0_fails i < 0 \<longrightarrow>
           Close (sp_socket (sv_players two_client_server ! i)) \<in> set evs
           \<or> sp_socket (sv_players two_client_server ! i) = INVALID_SOCKET"
    "\<forall>i<MAX_PLAYERS. sv_players server' ! i =
           (if sp_active (sv_players two_client_server ! i) \<noteq> 0 \<and> send_to_slot_0_fails i < 0
            then (sv_players two_client_server ! i)\<lparr>sp_active := 0\<rparr>
            else sv_players two_client_server ! i)"
    "sv_player_count server' = sv_player_count two_client_server
           - int (length (filter (\<lambda>i. sp_active (sv_players two_client_server ! i) \<noteq> 0
                   \<and> send_to_slot_0_fails i < 0) [0..<MAX_PLAYERS]))"
    by blast
  have p0: "sp_active (sv_players two_client_server ! 0) \<noteq> 0"
    "sp_socket (sv_players two_client_server ! 0) = 4"
    "sp_active (sv_players two_client_server ! 1) \<noteq> 0"
    "sp_socket (sv_players two_client_server ! 1) = 5"
    "sp_last_sequence (sv_players two_client_server ! 1) = 12"
    by (simp_all add: two_client_server_def zeroed_player_def)
  have f: "send_to_slot_0_fails 0 < 0" "\<not> send_to_slot_0_fails 1 < 0"
    by (simp_all add: send_to_slot_0_fails_def)
  have m: "(0::nat) < MAX_PLAYERS" "(1::nat) < MAX_PLAYERS" by (simp_all add: MAX_PLAYERS_def)
  have a: "sp_active (sv_players server' ! 0) = 0"
    using r(4)[rule_format, OF m(1)] p0 f by simp
  have b: "sv_players server' ! 1 = sv_players two_client_server ! 1"
    using r(4)[rule_format, OF m(2)] p0 f by simp
  have c: "sv_player_count server' = 1"
    unfolding r(5)
    by (simp add: upt_4 two_client_server_def zeroed_player_def send_to_slot_0_fails_def)
  have d: "Send 5 (with_sequence LittleEndian
                 (MessageHeader_bytes LittleEndian (snapshot_header sample_float_bits two_client_server)
                    @ snapshot_payload LittleEndian sample_float_bits two_client_server) 12) \<in> set evs"
    using r(2)[rule_format, OF m(2) p0(3)] p0 by simp
  have e: "Close 4 \<in> set evs"
    using r(3)[rule_format, OF m(1)] p0 f by (simp add: INVALID_SOCKET_def)
  show ?thesis using r(1) a b c d e by blast
qed


end
